theory Spec2Isabelle
  imports Complex_Main "HOL-Library.Monad_Syntax"
begin

section \<open>Closed-form SVD of a 2x2 matrix (utils/matrix)\<close>

text \<open>
  The module works on JavaScript numbers. The first model reads every number as an exact
  real: \<open>+\<close>, \<open>-\<close>, \<open>*\<close> are the field operations, and the two operations that can leave
  the reals are partial. \<open>Math.sqrt\<close> of a negative number is NaN and a division by zero
  is NaN or an infinity; both are the value \<open>None\<close> here, and \<open>None\<close> propagates as NaN
  does. Rounding is not part of this model; the two literals \<open>1e-10\<close> and \<open>1e-9\<close>
  are the binary64 numbers they denote, \<open>7737125245533627 / 2^86\<close> and
  \<open>4835703278458517 / 2^82\<close>.
\<close>

subsection \<open>Data model\<close>

type_synonym vec2 = "real \<times> real"

text \<open>\<open>Matrix2x2 = [[number, number], [number, number]]\<close>: a pair of rows.\<close>

type_synonym 'n Matrix2x2 = "('n \<times> 'n) \<times> ('n \<times> 'n)"

record 'n SVDResult =
  u :: "'n Matrix2x2"
  s :: "'n \<times> 'n"
  v :: "'n Matrix2x2"
  vt :: "'n Matrix2x2"

text \<open>Indexing \<open>m[i][j]\<close> of the fixed-size tuple type, for \<open>i, j\<close> in \<open>{0, 1}\<close>.\<close>

definition row :: "'a \<times> 'a \<Rightarrow> nat \<Rightarrow> 'a" where
  "row p i = (if i = 0 then fst p else snd p)"

definition entry :: "'n Matrix2x2 \<Rightarrow> nat \<Rightarrow> nat \<Rightarrow> 'n" where
  "entry m i j = row (row m i) j"

subsection \<open>Library functions\<close>

definition js_sqrt :: "real \<Rightarrow> real option" where
  "js_sqrt x = (if x < 0 then None else Some (sqrt x))"

definition js_div :: "real \<Rightarrow> real \<Rightarrow> real option" where
  "js_div x y = (if y = 0 then None else Some (x / y))"

text \<open>
  Modelled from the spec: \<open>math.multiply\<close> of the mathjs package, which the sources
  import and do not contain. On two 2x2 arrays it is the matrix product,
  \<open>(XY)[i][j] = \<Sum>k. X[i][k] * Y[k][j]\<close>.
\<close>

definition multiply :: "real Matrix2x2 \<Rightarrow> real Matrix2x2 \<Rightarrow> real Matrix2x2" where
  "multiply x y =
     ((entry x 0 0 * entry y 0 0 + entry x 0 1 * entry y 1 0, entry x 0 0 * entry y 0 1 + entry x 0 1 * entry y 1 1),
      (entry x 1 0 * entry y 0 0 + entry x 1 1 * entry y 1 0, entry x 1 0 * entry y 0 1 + entry x 1 1 * entry y 1 1))"

subsection \<open>The decomposition\<close>

definition computeSVD :: "real Matrix2x2 \<Rightarrow> real SVDResult option" where
  "computeSVD matrix =
     (let a = entry matrix 0 0;
          b = entry matrix 0 1;
          c = entry matrix 1 0;
          d = entry matrix 1 1;
          e = a * a + c * c;
          f = a * b + c * d;
          g = b * b + d * d
      in do {
        disc \<leftarrow> js_sqrt ((e - g) * (e - g) + 4 * f * f);
        let lambda1 = (e + g + disc) / 2;
        let lambda2 = (e + g - disc) / 2;
        s1 \<leftarrow> js_sqrt lambda1;
        s2 \<leftarrow> js_sqrt lambda2;
        (v1, v2) \<leftarrow>
          (if \<bar>f\<bar> < 7737125245533627 / 77371252455336267181195264 then
             (if e \<ge> g then Some ((1, 0), (0, 1)) else Some ((0, 1), (- 1, 0)))
           else do {
             let w = (f, lambda1 - e);
             norm1 \<leftarrow> js_sqrt (fst w * fst w + snd w * snd w);
             x \<leftarrow> js_div (fst w) norm1;
             y \<leftarrow> js_div (snd w) norm1;
             Some ((x, y), (- y, x))
           });
        u1 \<leftarrow>
          (if s1 > 4835703278458517 / 4835703278458516698824704 then do {
             x \<leftarrow> js_div (a * fst v1 + b * snd v1) s1;
             y \<leftarrow> js_div (c * fst v1 + d * snd v1) s1;
             Some (x, y)
           } else Some (1, 0));
        u2 \<leftarrow>
          (if s2 > 4835703278458517 / 4835703278458516698824704 then do {
             x \<leftarrow> js_div (a * fst v2 + b * snd v2) s2;
             y \<leftarrow> js_div (c * fst v2 + d * snd v2) s2;
             Some (x, y)
           } else Some (- snd u1, fst u1));
        Some \<lparr> u = ((fst u1, fst u2), (snd u1, snd u2)),
               s = (s1, s2),
               v = ((fst v1, fst v2), (snd v1, snd v2)),
               vt = ((fst v1, snd v1), (fst v2, snd v2)) \<rparr>
      })"

subsection \<open>Reconstruction and point transformation\<close>

definition reconstructMatrix :: "real Matrix2x2 \<Rightarrow> real \<times> real \<Rightarrow> real Matrix2x2 \<Rightarrow> real Matrix2x2" where
  "reconstructMatrix um sv vtm =
     (let S = ((fst sv, 0), (0, snd sv));
          us = multiply um S;
          result = multiply us vtm
      in result)"

definition applyTransform :: "real Matrix2x2 \<Rightarrow> real \<times> real \<Rightarrow> real \<times> real" where
  "applyTransform matrix point =
     (entry matrix 0 0 * fst point + entry matrix 0 1 * snd point,
      entry matrix 1 0 * fst point + entry matrix 1 1 * snd point)"

section \<open>The decomposition in binary64 arithmetic\<close>

text \<open>
  The second model keeps the rounding. A number is an IEEE 754 binary64 value: a
  rational that the format represents, an infinity, or NaN. The two zeros are not
  distinguished, and a division by zero takes the zero as positive. Every operation
  computes the exact result and rounds it to the nearest representable value, ties to
  the even significand; \<open>Math.sqrt\<close> is correctly rounded and is NaN on a negative
  number; a comparison with NaN is false.
\<close>

subsection \<open>Rounding\<close>

datatype double = Finite rat | PosInf | NegInf | NaN

text \<open>The number of binary digits of a positive integer.\<close>

function bits :: "int \<Rightarrow> nat" where
  "bits n = (if n \<le> 0 then 0 else Suc (bits (n div 2)))"
  by pat_completeness auto
termination
  by (relation "measure nat") auto

declare bits.simps [simp del]

text \<open>\<open>ilog2 x\<close> is the exponent \<open>e\<close> with \<open>2^e \<le> x < 2^(e+1)\<close>, for \<open>x > 0\<close>.\<close>

definition ilog2 :: "rat \<Rightarrow> int" where
  "ilog2 x =
     (if 1 \<le> x then int (bits \<lfloor>x\<rfloor>) - 1
      else let b = int (bits \<lfloor>1 / x\<rfloor>) - 1 in if 1 / x = 2 powi b then - b else - b - 1)"

definition round_half_even :: "rat \<Rightarrow> int" where
  "round_half_even y =
     (let n = \<lfloor>y\<rfloor>; d = y - of_int n
      in if d < 1 / 2 then n else if 1 / 2 < d then n + 1 else if even n then n else n + 1)"

text \<open>
  Rounding to binary64: 53 significant bits, the least exponent of the last place is
  \<open>-1074\<close> (subnormal numbers), and a result of \<open>2^1024\<close> or more is an infinity.
\<close>

definition round_f64 :: "rat \<Rightarrow> double" where
  "round_f64 x =
     (if x = 0 then Finite 0
      else let k = max (ilog2 \<bar>x\<bar> - 52) (- 1074);
               y = of_int (round_half_even (\<bar>x\<bar> / 2 powi k)) * 2 powi k
           in if 2 powi 1024 \<le> y then (if 0 < x then PosInf else NegInf)
              else Finite (if 0 < x then y else - y))"

text \<open>
  The integer square root, bit by bit, and the correctly rounded square root of a
  positive rational: its significand is the integer nearest to \<open>sqrt (x / 4^k)\<close>.
\<close>

fun isqrt_aux :: "nat \<Rightarrow> int \<Rightarrow> int \<Rightarrow> int" where
  "isqrt_aux 0 z r = r"
| "isqrt_aux (Suc i) z r = (let c = r + 2 ^ i in isqrt_aux i z (if c * c \<le> z then c else r))"

definition sqrt_f64 :: "rat \<Rightarrow> double" where
  "sqrt_f64 x =
     (let k = ilog2 x div 2 - 52;
          z = x / 2 powi (2 * k);
          n = isqrt_aux 53 \<lfloor>z\<rfloor> 0;
          h = of_int n + 1 / 2
      in Finite (of_int (if z < h * h then n else if h * h < z then n + 1
                         else if even n then n else n + 1) * 2 powi k))"

subsection \<open>Operations on numbers\<close>

text \<open>A decimal literal of the source denotes the nearest binary64 value.\<close>

definition lit :: "rat \<Rightarrow> double" where
  "lit q = round_f64 q"

fun fneg :: "double \<Rightarrow> double" where
  "fneg (Finite x) = Finite (- x)"
| "fneg PosInf = NegInf"
| "fneg NegInf = PosInf"
| "fneg NaN = NaN"

fun fabs :: "double \<Rightarrow> double" where
  "fabs (Finite x) = Finite \<bar>x\<bar>"
| "fabs PosInf = PosInf"
| "fabs NegInf = PosInf"
| "fabs NaN = NaN"

fun is_neg :: "double \<Rightarrow> bool" where
  "is_neg (Finite x) = (x < 0)"
| "is_neg NegInf = True"
| "is_neg PosInf = False"
| "is_neg NaN = False"

fun fadd :: "double \<Rightarrow> double \<Rightarrow> double" where
  "fadd (Finite x) (Finite y) = round_f64 (x + y)"
| "fadd NaN y = NaN"
| "fadd x NaN = NaN"
| "fadd PosInf NegInf = NaN"
| "fadd NegInf PosInf = NaN"
| "fadd PosInf y = PosInf"
| "fadd NegInf y = NegInf"
| "fadd x PosInf = PosInf"
| "fadd x NegInf = NegInf"

definition fsub :: "double \<Rightarrow> double \<Rightarrow> double" where
  "fsub x y = fadd x (fneg y)"

fun fmul :: "double \<Rightarrow> double \<Rightarrow> double" where
  "fmul (Finite x) (Finite y) = round_f64 (x * y)"
| "fmul NaN y = NaN"
| "fmul x NaN = NaN"
| "fmul x y = (if x = Finite 0 \<or> y = Finite 0 then NaN
               else if is_neg x = is_neg y then PosInf else NegInf)"

fun fdiv :: "double \<Rightarrow> double \<Rightarrow> double" where
  "fdiv (Finite x) (Finite y) =
     (if y = 0 then (if x = 0 then NaN else if 0 < x then PosInf else NegInf)
      else round_f64 (x / y))"
| "fdiv NaN y = NaN"
| "fdiv x NaN = NaN"
| "fdiv (Finite x) y = Finite 0"
| "fdiv x (Finite y) = (if is_neg x = (y < 0) then PosInf else NegInf)"
| "fdiv x y = NaN"

fun fsqrt :: "double \<Rightarrow> double" where
  "fsqrt (Finite x) = (if x < 0 then NaN else if x = 0 then Finite 0 else sqrt_f64 x)"
| "fsqrt PosInf = PosInf"
| "fsqrt NegInf = NaN"
| "fsqrt NaN = NaN"

fun flt :: "double \<Rightarrow> double \<Rightarrow> bool" where
  "flt (Finite x) (Finite y) = (x < y)"
| "flt NegInf (Finite y) = True"
| "flt NegInf PosInf = True"
| "flt (Finite x) PosInf = True"
| "flt x y = False"

definition fgt :: "double \<Rightarrow> double \<Rightarrow> bool" where
  "fgt x y = flt y x"

definition fge :: "double \<Rightarrow> double \<Rightarrow> bool" where
  "fge x y = (flt y x \<or> (x = y \<and> x \<noteq> NaN))"

text \<open>The comparison \<open>==\<close> of two numbers: NaN is not equal to itself.\<close>

definition feq :: "double \<Rightarrow> double \<Rightarrow> bool" where
  "feq x y = (x = y \<and> x \<noteq> NaN)"

subsection \<open>\<open>computeSVD\<close> with rounding\<close>

definition computeSVD_f64 :: "double Matrix2x2 \<Rightarrow> double SVDResult" where
  "computeSVD_f64 matrix =
     (let a = entry matrix 0 0;
          b = entry matrix 0 1;
          c = entry matrix 1 0;
          d = entry matrix 1 1;
          e = fadd (fmul a a) (fmul c c);
          f = fadd (fmul a b) (fmul c d);
          g = fadd (fmul b b) (fmul d d);
          disc = fsqrt (fadd (fmul (fsub e g) (fsub e g)) (fmul (fmul (Finite 4) f) f));
          lambda1 = fdiv (fadd (fadd e g) disc) (Finite 2);
          lambda2 = fdiv (fsub (fadd e g) disc) (Finite 2);
          s1 = fsqrt lambda1;
          s2 = fsqrt lambda2;
          (v1, v2) =
            (if flt (fabs f) (lit (1 / 10 ^ 10)) then
               (if fge e g then ((Finite 1, Finite 0), (Finite 0, Finite 1))
                else ((Finite 0, Finite 1), (Finite (- 1), Finite 0)))
             else
               (let w = (f, fsub lambda1 e);
                    norm1 = fsqrt (fadd (fmul (fst w) (fst w)) (fmul (snd w) (snd w)));
                    w' = (fdiv (fst w) norm1, fdiv (snd w) norm1)
                in (w', (fneg (snd w'), fst w'))));
          u1 =
            (if fgt s1 (lit (1 / 10 ^ 9)) then
               (fdiv (fadd (fmul a (fst v1)) (fmul b (snd v1))) s1,
                fdiv (fadd (fmul c (fst v1)) (fmul d (snd v1))) s1)
             else (Finite 1, Finite 0));
          u2 =
            (if fgt s2 (lit (1 / 10 ^ 9)) then
               (fdiv (fadd (fmul a (fst v2)) (fmul b (snd v2))) s2,
                fdiv (fadd (fmul c (fst v2)) (fmul d (snd v2))) s2)
             else (fneg (snd u1), fst u1))
      in \<lparr> u = ((fst u1, fst u2), (snd u1, snd u2)),
           s = (s1, s2),
           v = ((fst v1, fst v2), (snd v1, snd v2)),
           vt = ((fst v1, snd v1), (fst v2, snd v2)) \<rparr>)"

subsection \<open>\<open>reconstructMatrix\<close> with rounding\<close>

text \<open>
  Modelled from the spec: \<open>math.multiply\<close> of the mathjs package on binary64 numbers.
  It adds the two products of a row and a column from left to right; each product and
  the sum are rounded.
\<close>

definition multiply_f64 :: "double Matrix2x2 \<Rightarrow> double Matrix2x2 \<Rightarrow> double Matrix2x2" where
  "multiply_f64 x y =
     ((fadd (fmul (entry x 0 0) (entry y 0 0)) (fmul (entry x 0 1) (entry y 1 0)),
       fadd (fmul (entry x 0 0) (entry y 0 1)) (fmul (entry x 0 1) (entry y 1 1))),
      (fadd (fmul (entry x 1 0) (entry y 0 0)) (fmul (entry x 1 1) (entry y 1 0)),
       fadd (fmul (entry x 1 0) (entry y 0 1)) (fmul (entry x 1 1) (entry y 1 1))))"

definition reconstructMatrix_f64 ::
  "double Matrix2x2 \<Rightarrow> double \<times> double \<Rightarrow> double Matrix2x2 \<Rightarrow> double Matrix2x2" where
  "reconstructMatrix_f64 um sv vtm =
     (let S = ((fst sv, Finite 0), (Finite 0, snd sv));
          us = multiply_f64 um S;
          result = multiply_f64 us vtm
      in result)"

section \<open>The angle codec\<close>

text \<open>
  \<open>getAngle\<close> and \<open>fromAngle\<close> do no arithmetic of their own except one negation:
  they call \<open>Math.atan2\<close>, \<open>Math.cos\<close> and \<open>Math.sin\<close>. ECMAScript specifies these
  three functions as implementation-approximated, so their values in the last place
  belong to the engine and not to the module. They are parameters of the model: a
  record of three functions on numbers. A number is here a binary64 value together with
  the sign of zero, which \<open>Math.atan2\<close> reads; \<open>Num (Finite 0)\<close> is \<open>+0\<close>.
\<close>

datatype number = NegZero | Num double

text \<open>The rational value of a finite number.\<close>

fun fin :: "number \<Rightarrow> rat option" where
  "fin NegZero = Some 0"
| "fin (Num (Finite q)) = Some q"
| "fin (Num PosInf) = None"
| "fin (Num NegInf) = None"
| "fin (Num NaN) = None"

text \<open>The unary minus: it changes the sign of a zero.\<close>

fun neg :: "number \<Rightarrow> number" where
  "neg NegZero = Num (Finite 0)"
| "neg (Num x) = (if x = Finite 0 then NegZero else Num (fneg x))"

record math =
  Math_atan2 :: "number \<Rightarrow> number \<Rightarrow> number"
  Math_cos :: "number \<Rightarrow> number"
  Math_sin :: "number \<Rightarrow> number"

text \<open>\<open>Math.PI\<close> is the binary64 number \<open>3.141592653589793\<close>, which is \<open>884279719003555 / 2^48\<close>.\<close>

definition Math_PI :: rat where
  "Math_PI = 884279719003555 / 281474976710656"

definition getAngle :: "math \<Rightarrow> number Matrix2x2 \<Rightarrow> number" where
  "getAngle M matrix = Math_atan2 M (entry matrix 1 0) (entry matrix 0 0)"

definition fromAngle :: "math \<Rightarrow> number \<Rightarrow> number Matrix2x2" where
  "fromAngle M angle =
     (let c = Math_cos M angle; sn = Math_sin M angle in ((c, neg sn), (sn, c)))"

section \<open>Notions the properties are stated with\<close>

text \<open>
  Column \<open>j\<close> of a matrix, the dot product and the norm of a vector, the determinant
  and the transpose.
\<close>

definition col :: "real Matrix2x2 \<Rightarrow> nat \<Rightarrow> vec2" where
  "col m j = (entry m 0 j, entry m 1 j)"

definition dot :: "vec2 \<Rightarrow> vec2 \<Rightarrow> real" where
  "dot p q = fst p * fst q + snd p * snd q"

definition vnorm :: "vec2 \<Rightarrow> real" where
  "vnorm p = sqrt (dot p p)"

definition det :: "real Matrix2x2 \<Rightarrow> real" where
  "det m = entry m 0 0 * entry m 1 1 - entry m 0 1 * entry m 1 0"

definition transpose2 :: "'n Matrix2x2 \<Rightarrow> 'n Matrix2x2" where
  "transpose2 m = ((entry m 0 0, entry m 1 0), (entry m 0 1, entry m 1 1))"

text \<open>
  The matrix product as the specification writes it, \<open>(XY)[i][j] = \<Sum>k. X[i][k] * Y[k][j]\<close>,
  and the diagonal matrix of a pair.
\<close>

definition from_entries :: "(nat \<Rightarrow> nat \<Rightarrow> real) \<Rightarrow> real Matrix2x2" where
  "from_entries h = ((h 0 0, h 0 1), (h 1 0, h 1 1))"

definition matrix_product :: "real Matrix2x2 \<Rightarrow> real Matrix2x2 \<Rightarrow> real Matrix2x2" where
  "matrix_product X Y = from_entries (\<lambda>i j. \<Sum>k<2. entry X i k * entry Y k j)"

definition diag :: "real \<times> real \<Rightarrow> real Matrix2x2" where
  "diag S = ((fst S, 0), (0, snd S))"


text \<open>
  The principal angle of the point \<open>(x, y)\<close>: the angle in \<open>(-\<pi>, \<pi>]\<close> of its polar
  coordinates, and \<open>0\<close> at the origin. This is the real number that \<open>Math.atan2(y, x)\<close>
  approximates.
\<close>

definition polar_angle :: "real \<Rightarrow> real \<Rightarrow> real" where
  "polar_angle y x =
     (if 0 < x then arctan (y / x)
      else if x < 0 then (if 0 \<le> y then arctan (y / x) + pi else arctan (y / x) - pi)
      else if 0 < y then pi / 2
      else if y < 0 then - (pi / 2)
      else 0)"

text \<open>
  What is required of the library, with \<open>tol\<close> the absolute accuracy of the engine.
  On finite arguments \<open>Math.atan2\<close> returns a finite number between \<open>-Math.PI\<close> and
  \<open>Math.PI\<close>; away from the negative real axis it is within \<open>tol\<close> of the principal
  angle, and on that axis, where the result depends on the sign of the zero \<open>y\<close>, it is
  within \<open>tol\<close> of \<open>\<pi>\<close> or of \<open>-\<pi>\<close>. \<open>Math.sin\<close> and \<open>Math.cos\<close> return a finite
  number within \<open>tol\<close> of the sine and the cosine, and \<open>Math.sin\<close> returns a number of
  the sign of the sine (a zero where the sine is zero).
\<close>

definition atan2_conforms :: "real \<Rightarrow> math \<Rightarrow> bool" where
  "atan2_conforms tol M \<longleftrightarrow>
     (\<forall>y x p q. fin y = Some p \<longrightarrow> fin x = Some q \<longrightarrow>
        (\<exists>a. fin (Math_atan2 M y x) = Some a \<and> - Math_PI \<le> a \<and> a \<le> Math_PI
           \<and> (p \<noteq> 0 \<or> 0 < q \<longrightarrow>
                \<bar>real_of_rat a - polar_angle (real_of_rat p) (real_of_rat q)\<bar> \<le> tol)
           \<and> (p = 0 \<and> q < 0 \<longrightarrow> \<bar>\<bar>real_of_rat a\<bar> - pi\<bar> \<le> tol)))"

definition sin_conforms :: "real \<Rightarrow> math \<Rightarrow> bool" where
  "sin_conforms tol M \<longleftrightarrow>
     (\<forall>x t. fin x = Some t \<longrightarrow>
        (\<exists>sv. fin (Math_sin M x) = Some sv
           \<and> \<bar>real_of_rat sv - sin (real_of_rat t)\<bar> \<le> tol
           \<and> (0 < sv \<longleftrightarrow> 0 < sin (real_of_rat t))
           \<and> (sv < 0 \<longleftrightarrow> sin (real_of_rat t) < 0)))"

definition cos_conforms :: "real \<Rightarrow> math \<Rightarrow> bool" where
  "cos_conforms tol M \<longleftrightarrow>
     (\<forall>x t. fin x = Some t \<longrightarrow>
        (\<exists>cv. fin (Math_cos M x) = Some cv
           \<and> \<bar>real_of_rat cv - cos (real_of_rat t)\<bar> \<le> tol))"

text \<open>
  A library that meets these requirements with \<open>tol = 1e-15\<close>: each function returns
  the exact value moved away from zero to the next multiple of \<open>2^-60\<close>, and
  \<open>Math.atan2\<close> keeps the result between \<open>-Math.PI\<close> and \<open>Math.PI\<close> and returns
  \<open>\<plusminus>Math.PI\<close> on the negative real axis, by the sign of the zero.
\<close>

definition near :: "real \<Rightarrow> rat" where
  "near x = (if x = 0 then 0
             else if 0 < x then (of_int \<lfloor>x * 2 ^ 60\<rfloor> + 1) / 2 ^ 60
             else - ((of_int \<lfloor>- x * 2 ^ 60\<rfloor> + 1) / 2 ^ 60))"

definition ref_math :: math where
  "ref_math =
     \<lparr> Math_atan2 = (\<lambda>y x. case (fin y, fin x) of
          (Some p, Some q) \<Rightarrow>
            if p = 0 \<and> q < 0 then Num (Finite (if y = NegZero then - Math_PI else Math_PI))
            else Num (Finite (max (- Math_PI)
                   (min Math_PI (near (polar_angle (real_of_rat p) (real_of_rat q))))))
        | _ \<Rightarrow> Num NaN),
       Math_cos = (\<lambda>x. case fin x of
          Some t \<Rightarrow> Num (Finite (near (cos (real_of_rat t)))) | None \<Rightarrow> Num NaN),
       Math_sin = (\<lambda>x. case fin x of
          Some t \<Rightarrow> Num (Finite (near (sin (real_of_rat t)))) | None \<Rightarrow> Num NaN) \<rparr>"

section \<open>Properties in exact arithmetic\<close>

subsection \<open>Indexing and arithmetic facts\<close>

lemma entry_simps [simp]:
  "entry m 0 0 = fst (fst m)" "entry m 0 1 = snd (fst m)"
  "entry m 1 0 = fst (snd m)" "entry m 1 1 = snd (snd m)"
  "entry m 0 (Suc 0) = snd (fst m)"
  "entry m (Suc 0) 0 = fst (snd m)" "entry m (Suc 0) (Suc 0) = snd (snd m)"
  by (simp_all add: entry_def row_def)

lemma lessThan_two: "{..<2::nat} = {0, 1}"
  by auto

lemma sqrt_eqI: "0 \<le> y \<Longrightarrow> y * y = x \<Longrightarrow> sqrt x = y" for x y :: real
  by (metis real_sqrt_abs2 abs_of_nonneg)

lemma gram_cauchy:
  "(a * b + c * d) * (a * b + c * d) \<le> (a * a + c * c) * (b * b + d * d)" for a b c d :: real
proof -
  have "(a * a + c * c) * (b * b + d * d) - (a * b + c * d) * (a * b + c * d) = (a * d - b * c)\<^sup>2"
    by (simp add: power2_eq_square algebra_simps)
  then show ?thesis by (smt (verit) zero_le_power2)
qed

lemma disc_le_trace:
  fixes e f g :: real
  assumes "0 \<le> e" "0 \<le> g" "f * f \<le> e * g"
  shows "sqrt ((e - g) * (e - g) + 4 * f * f) \<le> e + g"
proof -
  have "(e - g) * (e - g) + 4 * f * f \<le> (e + g)\<^sup>2"
    using assms by (simp add: power2_eq_square algebra_simps)
  then have "sqrt ((e - g) * (e - g) + 4 * f * f) \<le> sqrt ((e + g)\<^sup>2)"
    by (rule real_sqrt_le_mono)
  then show ?thesis using assms by simp
qed

lemma disc_arg_nonneg: "\<not> (e - g) * (e - g) + 4 * f * f < 0" for e f g :: real
proof -
  have "0 \<le> (e - g) * (e - g)" by simp
  moreover have "0 \<le> f * f" by simp
  ultimately show ?thesis by linarith
qed

lemma norm_arg_nonneg: "\<not> f * f + x * x < 0" for f x :: real
  by (simp add: not_less)

lemma norm_arg_pos: "f \<noteq> 0 \<Longrightarrow> 0 < f * f + x * x" for f x :: real
proof -
  assume "f \<noteq> 0"
  then have "0 < f * f" by (auto simp add: zero_less_mult_iff)
  moreover have "0 \<le> x * x" by simp
  ultimately show ?thesis by linarith
qed

lemma norm_nonzero: "f \<noteq> 0 \<Longrightarrow> sqrt (f * f + x * x) \<noteq> 0" for f x :: real
proof -
  assume "f \<noteq> 0"
  then have "0 < f * f + x * x" by (rule norm_arg_pos)
  then have "0 < sqrt (f * f + x * x)" by (rule real_sqrt_gt_zero)
  then show ?thesis by (metis less_irrefl)
qed

subsection \<open>The value of \<open>computeSVD\<close>\<close>

text \<open>
  In exact arithmetic no square root is taken of a negative number and no division is by
  zero: the decomposition is total, and its value is the one below.
\<close>

lemma computeSVD_result:
  fixes a b c d :: real
  assumes e: "e = a * a + c * c" and f: "f = a * b + c * d" and g: "g = b * b + d * d"
    and disc: "disc = sqrt ((e - g) * (e - g) + 4 * f * f)"
    and l1: "l1 = (e + g + disc) / 2" and l2: "l2 = (e + g - disc) / 2"
    and n: "n = sqrt (f * f + (l1 - e) * (l1 - e))"
    and v1: "v1 = (if \<bar>f\<bar> < 7737125245533627 / 77371252455336267181195264 then (if e \<ge> g then (1, 0) else (0, 1))
                   else (f / n, (l1 - e) / n))"
    and v2: "v2 = (if \<bar>f\<bar> < 7737125245533627 / 77371252455336267181195264 then (if e \<ge> g then (0, 1) else (- 1, 0))
                   else (- ((l1 - e) / n), f / n))"
    and u1: "u1 = (if sqrt l1 > 4835703278458517 / 4835703278458516698824704
                   then ((a * fst v1 + b * snd v1) / sqrt l1, (c * fst v1 + d * snd v1) / sqrt l1)
                   else (1, 0))"
    and u2: "u2 = (if sqrt l2 > 4835703278458517 / 4835703278458516698824704
                   then ((a * fst v2 + b * snd v2) / sqrt l2, (c * fst v2 + d * snd v2) / sqrt l2)
                   else (- snd u1, fst u1))"
  shows "computeSVD ((a, b), (c, d)) =
           Some \<lparr> u = ((fst u1, fst u2), (snd u1, snd u2)), s = (sqrt l1, sqrt l2),
                  v = ((fst v1, fst v2), (snd v1, snd v2)), vt = (v1, v2) \<rparr>"
proof -
  have e0: "0 \<le> e" and g0: "0 \<le> g" by (simp_all add: e g)
  have disc0: "0 \<le> disc" using disc_arg_nonneg[of e g f] by (simp add: disc)
  have "f * f \<le> e * g" unfolding e f g by (rule gram_cauchy)
  then have "disc \<le> e + g" unfolding disc using e0 g0 by (intro disc_le_trace)
  then have l2n: "\<not> l2 < 0" by (simp add: l2)
  have l1n: "\<not> l1 < 0" using e0 g0 disc0 by (simp add: l1)
  have nz: "n \<noteq> 0" if "\<not> \<bar>f\<bar> < 7737125245533627 / 77371252455336267181195264"
  proof -
    have "f \<noteq> 0" using that by auto
    then show ?thesis unfolding n by (rule norm_nonzero)
  qed
  have s1z: "sqrt l1 \<noteq> 0" if "sqrt l1 > 4835703278458517 / 4835703278458516698824704" using that by auto
  have s2z: "sqrt l2 \<noteq> 0" if "sqrt l2 > 4835703278458517 / 4835703278458516698824704" using that by auto
  have A: "js_sqrt ((e - g) * (e - g) + 4 * f * f) = Some disc"
    by (simp only: js_sqrt_def disc_arg_nonneg if_False disc)
  have B: "js_sqrt l1 = Some (sqrt l1)" "js_sqrt l2 = Some (sqrt l2)"
    by (simp_all only: js_sqrt_def l1n l2n if_False)
  have C: "js_sqrt (f * f + (l1 - e) * (l1 - e)) = Some n"
    by (simp only: js_sqrt_def norm_arg_nonneg if_False n)
  show ?thesis
  proof (cases "\<bar>f\<bar> < 7737125245533627 / 77371252455336267181195264")
    case True
    show ?thesis
      unfolding computeSVD_def entry_simps fst_conv snd_conv Let_def
      unfolding e[symmetric] f[symmetric] g[symmetric]
      unfolding A bind.bind_lunit l1[symmetric] l2[symmetric] B
      using True by (simp add: js_div_def s1z s2z v1 v2 u1 u2)
  next
    case False
    show ?thesis
      unfolding computeSVD_def entry_simps fst_conv snd_conv Let_def
      unfolding e[symmetric] f[symmetric] g[symmetric]
      unfolding A bind.bind_lunit l1[symmetric] l2[symmetric] B
      using False by (simp add: C js_div_def nz s1z s2z v1 v2 u1 u2)
  qed
qed

lemmas computeSVD_unfolded =
  computeSVD_result[OF refl refl refl refl refl refl refl refl refl refl refl]

lemma computeSVD_total: "\<exists>r. computeSVD A = Some r"
proof -
  obtain a b c d where A: "A = ((a, b), (c, d))" by (metis prod.exhaust)
  show ?thesis unfolding A computeSVD_unfolded by blast
qed

text \<open>
  Two facts of algebra: the larger eigenvalue solves the characteristic equation of the
  Gram matrix, and an orthonormal pair of which the first is an eigenvector is mapped
  by the matrix to an orthogonal pair whose squared norms are the two eigenvalues.
\<close>

lemma eigen_generic:
  fixes e f g :: real
  defines "x \<equiv> (e + g + sqrt ((e - g) * (e - g) + 4 * f * f)) / 2 - e"
  shows "x * (x + e - g) = f * f"
proof -
  define disc where "disc = sqrt ((e - g) * (e - g) + 4 * f * f)"
  have "0 \<le> (e - g) * (e - g) + 4 * f * f" using disc_arg_nonneg[of e g f] by simp
  then have d2: "disc * disc = (e - g) * (e - g) + 4 * f * f" unfolding disc_def by simp
  have xe: "x = (disc + (g - e)) / 2" unfolding x_def disc_def by (simp add: field_simps)
  have ye: "x + e - g = (disc - (g - e)) / 2" unfolding xe by (simp add: field_simps)
  have "x * (x + e - g) = (disc + (g - e)) / 2 * ((disc - (g - e)) / 2)"
    unfolding ye unfolding xe ..
  also have "\<dots> = (disc * disc - (g - e) * (g - e)) / 4" by (simp add: algebra_simps)
  also have "\<dots> = f * f" unfolding d2 by (simp add: algebra_simps)
  finally show ?thesis .
qed

lemma left_vectors_orthonormal:
  fixes a b c d p q l1 l2 :: real
  assumes pq: "p * p + q * q = 1"
    and e1: "(a * a + c * c) * p + (a * b + c * d) * q = l1 * p"
    and e2: "(a * b + c * d) * p + (b * b + d * d) * q = l1 * q"
    and tr: "l1 + l2 = a * a + c * c + (b * b + d * d)"
  shows "(a * p + b * q) * (a * p + b * q) + (c * p + d * q) * (c * p + d * q) = l1"
    and "(a * (- q) + b * p) * (a * (- q) + b * p) + (c * (- q) + d * p) * (c * (- q) + d * p) = l2"
    and "(a * p + b * q) * (a * (- q) + b * p) + (c * p + d * q) * (c * (- q) + d * p) = 0"
proof -
  have "(a * p + b * q) * (a * p + b * q) + (c * p + d * q) * (c * p + d * q)
      = p * ((a * a + c * c) * p + (a * b + c * d) * q) + q * ((a * b + c * d) * p + (b * b + d * d) * q)"
    by (simp add: algebra_simps)
  also have "\<dots> = l1 * (p * p + q * q)" unfolding e1 e2 by (simp add: algebra_simps)
  finally show n1: "(a * p + b * q) * (a * p + b * q) + (c * p + d * q) * (c * p + d * q) = l1"
    unfolding pq by simp
  have "(a * (- q) + b * p) * (a * (- q) + b * p) + (c * (- q) + d * p) * (c * (- q) + d * p)
      = (a * a + c * c + (b * b + d * d)) * (p * p + q * q)
        - ((a * p + b * q) * (a * p + b * q) + (c * p + d * q) * (c * p + d * q))"
    by (simp add: algebra_simps)
  also have "\<dots> = l2" unfolding n1 pq using tr by simp
  finally show "(a * (- q) + b * p) * (a * (- q) + b * p) + (c * (- q) + d * p) * (c * (- q) + d * p) = l2" .
  have "(a * p + b * q) * (a * (- q) + b * p) + (c * p + d * q) * (c * (- q) + d * p)
      = p * ((a * b + c * d) * p + (b * b + d * d) * q) - q * ((a * a + c * c) * p + (a * b + c * d) * q)"
    by (simp add: algebra_simps)
  also have "\<dots> = 0" unfolding e1 e2 by simp
  finally show "(a * p + b * q) * (a * (- q) + b * p) + (c * p + d * q) * (c * (- q) + d * p) = 0" .
qed

text \<open>
  The same value in terms of the first column \<open>(p, q)\<close> of \<open>V\<close>: it is a unit vector,
  the second column is \<open>(-q, p)\<close>, the singular values are ordered, their squares add
  up to the trace of the Gram matrix, and \<open>(p, q)\<close> is an eigenvector of the Gram matrix
  for \<open>s1\<^sup>2\<close> when \<open>f\<close> is zero or at least \<open>1e-10\<close> in absolute value.
\<close>

lemma computeSVD_shape:
  fixes a b c d :: real
  obtains p q s1 s2 u1 u2 where
    "p * p + q * q = 1"
    and "s1 * s1 + s2 * s2 = a * a + c * c + (b * b + d * d)"
    and "0 \<le> s2" and "s2 \<le> s1"
    and "a * b + c * d = 0 \<or> 7737125245533627 / 77371252455336267181195264 \<le> \<bar>a * b + c * d\<bar> \<longrightarrow>
           (a * a + c * c) * p + (a * b + c * d) * q = s1 * s1 * p
           \<and> (a * b + c * d) * p + (b * b + d * d) * q = s1 * s1 * q"
    and "u1 = (if s1 > 4835703278458517 / 4835703278458516698824704 then ((a * p + b * q) / s1, (c * p + d * q) / s1) else (1, 0))"
    and "u2 = (if s2 > 4835703278458517 / 4835703278458516698824704 then ((a * (- q) + b * p) / s2, (c * (- q) + d * p) / s2)
               else (- snd u1, fst u1))"
    and "computeSVD ((a, b), (c, d)) =
           Some \<lparr> u = ((fst u1, fst u2), (snd u1, snd u2)), s = (s1, s2),
                  v = ((p, - q), (q, p)), vt = ((p, q), (- q, p)) \<rparr>"
proof -
  define e where "e = a * a + c * c"
  define f where "f = a * b + c * d"
  define g where "g = b * b + d * d"
  define disc where "disc = sqrt ((e - g) * (e - g) + 4 * f * f)"
  define l1 where "l1 = (e + g + disc) / 2"
  define l2 where "l2 = (e + g - disc) / 2"
  define n where "n = sqrt (f * f + (l1 - e) * (l1 - e))"
  define v1 where "v1 = (if \<bar>f\<bar> < 7737125245533627 / 77371252455336267181195264 then (if e \<ge> g then (1, 0) else (0, 1))
                   else (f / n, (l1 - e) / n))"
  define v2 where "v2 = (if \<bar>f\<bar> < 7737125245533627 / 77371252455336267181195264 then (if e \<ge> g then (0, 1) else (- 1, 0))
                   else (- ((l1 - e) / n), f / n))"
  define u1 where "u1 = (if sqrt l1 > 4835703278458517 / 4835703278458516698824704
                   then ((a * fst v1 + b * snd v1) / sqrt l1, (c * fst v1 + d * snd v1) / sqrt l1)
                   else (1, 0))"
  define u2 where "u2 = (if sqrt l2 > 4835703278458517 / 4835703278458516698824704
                   then ((a * fst v2 + b * snd v2) / sqrt l2, (c * fst v2 + d * snd v2) / sqrt l2)
                   else (- snd u1, fst u1))"
  note R = computeSVD_result[OF e_def f_def g_def disc_def l1_def l2_def n_def v1_def v2_def u1_def u2_def]
  have rot: "v2 = (- snd v1, fst v1)" unfolding v1_def v2_def by simp
  have unit: "fst v1 * fst v1 + snd v1 * snd v1 = 1"
  proof (cases "\<bar>f\<bar> < 7737125245533627 / 77371252455336267181195264")
    case True
    then show ?thesis by (simp add: v1_def)
  next
    case False
    then have "f \<noteq> 0" by auto
    then have p: "0 < f * f + (l1 - e) * (l1 - e)" by (rule norm_arg_pos)
    then have nn: "n * n = f * f + (l1 - e) * (l1 - e)" unfolding n_def by simp
    have "f / n * (f / n) + (l1 - e) / n * ((l1 - e) / n) = (f * f + (l1 - e) * (l1 - e)) / (n * n)"
      by (simp add: add_divide_distrib)
    also have "\<dots> = 1" using p unfolding nn by (intro divide_self) linarith
    finally show ?thesis using False by (simp add: v1_def)
  qed
  have e0: "0 \<le> e" and g0: "0 \<le> g" by (simp_all add: e_def g_def)
  have disc0: "0 \<le> disc" using disc_arg_nonneg[of e g f] by (simp add: disc_def)
  have "f * f \<le> e * g" unfolding e_def f_def g_def by (rule gram_cauchy)
  then have "disc \<le> e + g" unfolding disc_def using e0 g0 by (intro disc_le_trace)
  then have l2: "0 \<le> l2" by (simp add: l2_def)
  have l12: "l2 \<le> l1" using disc0 by (simp add: l1_def l2_def)
  have l1: "0 \<le> l1" using l2 l12 by simp
  have eig: "e * fst v1 + f * snd v1 = l1 * fst v1 \<and> f * fst v1 + g * snd v1 = l1 * snd v1"
    if "f = 0 \<or> 7737125245533627 / 77371252455336267181195264 \<le> \<bar>f\<bar>"
  proof (cases "\<bar>f\<bar> < 7737125245533627 / 77371252455336267181195264")
    case True
    with that have f0: "f = 0" by auto
    have "disc = \<bar>e - g\<bar>" unfolding disc_def f0 by simp
    then show ?thesis using True unfolding v1_def l1_def f0 by (simp add: abs_if)
  next
    case False
    then have "f \<noteq> 0" by auto
    then have nz: "n \<noteq> 0" unfolding n_def by (rule norm_nonzero)
    have K: "(l1 - e) * (l1 - e + e - g) = f * f"
      unfolding l1_def disc_def by (rule eigen_generic)
    have "f * f + g * (l1 - e) = l1 * (l1 - e)" using K by (simp add: algebra_simps)
    then have "(f * f + g * (l1 - e)) / n = l1 * (l1 - e) / n" by simp
    moreover have "(e * f + f * (l1 - e)) / n = l1 * f / n" by (simp add: algebra_simps)
    ultimately show ?thesis using False unfolding v1_def
      by (simp add: add_divide_distrib)
  qed
  show thesis
  proof (rule that[of "fst v1" "snd v1" "sqrt l1" "sqrt l2" u1 u2])
    show "fst v1 * fst v1 + snd v1 * snd v1 = 1" by (rule unit)
    show "0 \<le> sqrt l2" using l2 by simp
    show "sqrt l2 \<le> sqrt l1" using l12 by simp
    show "sqrt l1 * sqrt l1 + sqrt l2 * sqrt l2 = a * a + c * c + (b * b + d * d)"
    proof -
      have "sqrt l1 * sqrt l1 = l1" "sqrt l2 * sqrt l2 = l2" using l1 l2 by simp_all
      moreover have "l1 + l2 = e + g" unfolding l1_def l2_def by (simp add: field_simps)
      ultimately show ?thesis unfolding e_def g_def by simp
    qed
    show "a * b + c * d = 0 \<or> 7737125245533627 / 77371252455336267181195264 \<le> \<bar>a * b + c * d\<bar> \<longrightarrow>
        (a * a + c * c) * fst v1 + (a * b + c * d) * snd v1 = sqrt l1 * sqrt l1 * fst v1
        \<and> (a * b + c * d) * fst v1 + (b * b + d * d) * snd v1 = sqrt l1 * sqrt l1 * snd v1"
      using eig l1 unfolding e_def f_def g_def by simp
    show "u1 = (if 4835703278458517 / 4835703278458516698824704 < sqrt l1
        then ((a * fst v1 + b * snd v1) / sqrt l1, (c * fst v1 + d * snd v1) / sqrt l1) else (1, 0))"
      by (rule u1_def)
    show "u2 = (if 4835703278458517 / 4835703278458516698824704 < sqrt l2
        then ((a * - snd v1 + b * fst v1) / sqrt l2, (c * - snd v1 + d * fst v1) / sqrt l2)
        else (- snd u1, fst u1))"
      unfolding u2_def rot by simp
    show "computeSVD ((a, b), c, d) =
      Some \<lparr>u = ((fst u1, fst u2), snd u1, snd u2), s = (sqrt l1, sqrt l2),
             v = ((fst v1, - snd v1), snd v1, fst v1), vt = ((fst v1, snd v1), - snd v1, fst v1)\<rparr>"
      unfolding R rot by simp
  qed
qed

text \<open>
  In exact arithmetic the eigenvalues are ordered and non-negative, so the singular values
  are real and in descending order.
\<close>

lemma singular_values_exact:
  "\<exists>r. computeSVD A = Some r \<and> 0 \<le> snd (s r) \<and> snd (s r) \<le> fst (s r)"
proof -
  obtain a b c d where A: "A = ((a, b), (c, d))" by (metis prod.exhaust)
  obtain p q s1 s2 u1 u2 where "0 \<le> s2" and "s2 \<le> s1"
    and "computeSVD ((a, b), (c, d)) =
           Some \<lparr> u = ((fst u1, fst u2), (snd u1, snd u2)), s = (s1, s2),
                  v = ((p, - q), (q, p)), vt = ((p, q), (- q, p)) \<rparr>"
    by (rule computeSVD_shape[where a = a and b = b and c = c and d = d])
  then show ?thesis unfolding A by simp
qed

subsection \<open>The right singular vectors\<close>

text \<open>In the diagonal-Gram branch the columns of \<open>V\<close> are coordinate axes.\<close>

lemma v_diagonal_branch:
  fixes a b c d :: real
  assumes "\<bar>a * b + c * d\<bar> < 7737125245533627 / 77371252455336267181195264"
  shows "map_option v (computeSVD ((a, b), (c, d))) =
           Some (if b * b + d * d \<le> a * a + c * c then ((1, 0), (0, 1)) else ((0, - 1), (1, 0)))"
  unfolding computeSVD_unfolded using assms by simp

text \<open>
  In exact arithmetic the first column of \<open>V\<close> is a unit vector in every branch and the
  second column is the first one turned by 90 degrees, so the determinant of \<open>V\<close> is
  \<open>1\<close>.
\<close>

lemma v_proper_rotation:
  "\<exists>r. computeSVD A = Some r \<and> det (v r) = 1
      \<and> dot (col (v r) 0) (col (v r) 0) = 1
      \<and> col (v r) 1 = (- snd (col (v r) 0), fst (col (v r) 0))"
proof -
  obtain a b c d where A: "A = ((a, b), (c, d))" by (metis prod.exhaust)
  obtain p q s1 s2 u1 u2 where pq: "p * p + q * q = 1"
    and R: "computeSVD ((a, b), (c, d)) =
           Some \<lparr> u = ((fst u1, fst u2), (snd u1, snd u2)), s = (s1, s2),
                  v = ((p, - q), (q, p)), vt = ((p, q), (- q, p)) \<rparr>"
    by (rule computeSVD_shape[where a = a and b = b and c = c and d = d])
  show ?thesis unfolding A R using pq by (simp add: det_def dot_def col_def)
qed

subsection \<open>The zero matrix\<close>

lemma svd_exact_zero:
  "computeSVD ((0, 0), (0, 0)) =
     Some \<lparr> u = ((1, 0), (0, 1)), s = (0, 0), v = ((1, 0), (0, 1)), vt = ((1, 0), (0, 1)) \<rparr>"
  by (simp add: computeSVD_def js_sqrt_def js_div_def Let_def)

subsection \<open>Reconstruction\<close>

text \<open>
  C6. For all \<open>U\<close>, \<open>S = (s0, s1)\<close> and \<open>Vt\<close>, with no condition on them,
  \<open>reconstructMatrix U S Vt\<close> is the product \<open>U * diag(s0, s1) * Vt\<close> with
  \<open>(XY)[i][j] = \<Sum>k. X[i][k] * Y[k][j]\<close>, in either bracketing, and its entry \<open>(i, j)\<close>
  is \<open>\<Sum>k. U[i][k] * S[k] * Vt[k][j]\<close>.
\<close>

theorem reconstructMatrix_product:
  "reconstructMatrix U S Vt = matrix_product (matrix_product U (diag S)) Vt
   \<and> reconstructMatrix U S Vt = matrix_product U (matrix_product (diag S) Vt)
   \<and> reconstructMatrix U S Vt = from_entries (\<lambda>i j. \<Sum>k<2. entry U i k * row S k * entry Vt k j)"
  by (simp add: reconstructMatrix_def multiply_def matrix_product_def from_entries_def diag_def
     lessThan_two row_def algebra_simps)

subsection \<open>Where the decomposition is a singular value decomposition\<close>

text \<open>
  When both singular values are above \<open>1e-9\<close> the reconstruction returns the matrix, in
  every branch, because the columns of \<open>V\<close> are orthonormal.
\<close>

lemma reconstruct_regular:
  fixes a b c d p q s1 s2 :: real
  assumes "p * p + q * q = 1" "s1 \<noteq> 0" "s2 \<noteq> 0"
  shows "reconstructMatrix (((a * p + b * q) / s1, (a * (- q) + b * p) / s2),
                            ((c * p + d * q) / s1, (c * (- q) + d * p) / s2))
           (s1, s2) ((p, q), (- q, p)) = ((a, b), (c, d))"
proof -
  have 1: "(a * p + b * q) * p + (a * (- q) + b * p) * (- q) = a * (p * p + q * q)" by (simp add: algebra_simps)
  have 2: "(a * p + b * q) * q + (a * (- q) + b * p) * p = b * (p * p + q * q)" by (simp add: algebra_simps)
  have 3: "(c * p + d * q) * p + (c * (- q) + d * p) * (- q) = c * (p * p + q * q)" by (simp add: algebra_simps)
  have 4: "(c * p + d * q) * q + (c * (- q) + d * p) * p = d * (p * p + q * q)" by (simp add: algebra_simps)
  show ?thesis
    using assms(2,3) 1 2 3 4 unfolding assms(1)
    by (simp add: reconstructMatrix_def multiply_def)
qed

lemma roundtrip_regular:
  assumes "computeSVD A = Some r" and "4835703278458517 / 4835703278458516698824704 < fst (s r)" and "4835703278458517 / 4835703278458516698824704 < snd (s r)"
  shows "reconstructMatrix (u r) (s r) (vt r) = A"
proof -
  obtain a b c d where A: "A = ((a, b), (c, d))" by (metis prod.exhaust)
  obtain p q s1 s2 u1 u2 where
    pq: "p * p + q * q = 1"
    and u1: "u1 = (if s1 > 4835703278458517 / 4835703278458516698824704 then ((a * p + b * q) / s1, (c * p + d * q) / s1) else (1, 0))"
    and u2: "u2 = (if s2 > 4835703278458517 / 4835703278458516698824704 then ((a * (- q) + b * p) / s2, (c * (- q) + d * p) / s2)
               else (- snd u1, fst u1))"
    and R: "computeSVD ((a, b), (c, d)) =
           Some \<lparr> u = ((fst u1, fst u2), (snd u1, snd u2)), s = (s1, s2),
                  v = ((p, - q), (q, p)), vt = ((p, q), (- q, p)) \<rparr>"
    by (rule computeSVD_shape[where a = a and b = b and c = c and d = d]) 
  have r: "r = \<lparr> u = ((fst u1, fst u2), (snd u1, snd u2)), s = (s1, s2),
                  v = ((p, - q), (q, p)), vt = ((p, q), (- q, p)) \<rparr>"
    using assms(1) unfolding A R by simp
  have s: "4835703278458517 / 4835703278458516698824704 < s1" "4835703278458517 / 4835703278458516698824704 < s2" using assms(2,3) unfolding r by simp_all
  then have nz: "s1 \<noteq> 0" "s2 \<noteq> 0" by auto
  show ?thesis
    unfolding r A using reconstruct_regular[OF pq nz, of a b c d] s
    by (simp add: u1 u2)
qed

text \<open>
  The columns of \<open>U\<close> are orthonormal when the first column of \<open>V\<close> is an eigenvector:
  in the general branch, and in the diagonal-Gram branch when \<open>f\<close> is zero.
\<close>

lemma quot_dot:
  "x1 / s * (y1 / t) + x2 / s * (y2 / t) = (x1 * y1 + x2 * y2) / (s * t)" for s t :: real
  by (simp add: add_divide_distrib)

lemma u_orthonormal:
  fixes a b c d :: real
  assumes "computeSVD ((a, b), (c, d)) = Some r"
    and "a * b + c * d = 0 \<or> 7737125245533627 / 77371252455336267181195264 \<le> \<bar>a * b + c * d\<bar>"
  shows "dot (col (u r) 0) (col (u r) 0) = 1 \<and> dot (col (u r) 1) (col (u r) 1) = 1
         \<and> dot (col (u r) 0) (col (u r) 1) = 0"
proof -
  obtain p q s1 s2 u1 u2 where
    pq: "p * p + q * q = 1"
    and tr: "s1 * s1 + s2 * s2 = a * a + c * c + (b * b + d * d)"
    and s2: "0 \<le> s2" and s21: "s2 \<le> s1"
    and eig: "a * b + c * d = 0 \<or> 7737125245533627 / 77371252455336267181195264 \<le> \<bar>a * b + c * d\<bar> \<longrightarrow>
           (a * a + c * c) * p + (a * b + c * d) * q = s1 * s1 * p
           \<and> (a * b + c * d) * p + (b * b + d * d) * q = s1 * s1 * q"
    and u1: "u1 = (if s1 > 4835703278458517 / 4835703278458516698824704 then ((a * p + b * q) / s1, (c * p + d * q) / s1) else (1, 0))"
    and u2: "u2 = (if s2 > 4835703278458517 / 4835703278458516698824704 then ((a * (- q) + b * p) / s2, (c * (- q) + d * p) / s2)
               else (- snd u1, fst u1))"
    and R: "computeSVD ((a, b), (c, d)) =
           Some \<lparr> u = ((fst u1, fst u2), (snd u1, snd u2)), s = (s1, s2),
                  v = ((p, - q), (q, p)), vt = ((p, q), (- q, p)) \<rparr>"
    by (rule computeSVD_shape[where a = a and b = b and c = c and d = d])
  have r: "u r = ((fst u1, fst u2), (snd u1, snd u2))" using assms(1) unfolding R by auto
  note E = eig[THEN mp, OF assms(2)]
  note L = left_vectors_orthonormal[OF pq E[THEN conjunct1] E[THEN conjunct2] tr]
  have goal: "fst u1 * fst u1 + snd u1 * snd u1 = 1 \<and> fst u2 * fst u2 + snd u2 * snd u2 = 1
      \<and> fst u1 * fst u2 + snd u1 * snd u2 = 0"
  proof (cases "s1 > 4835703278458517 / 4835703278458516698824704")
    case False
    then have "\<not> s2 > 4835703278458517 / 4835703278458516698824704" using s21 by simp
    with False show ?thesis by (simp add: u1 u2)
  next
    case big1: True
    then have z1: "s1 * s1 \<noteq> 0" by auto
    have f1: "fst u1 = (a * p + b * q) / s1" "snd u1 = (c * p + d * q) / s1"
      using big1 by (simp_all add: u1)
    have "fst u1 * fst u1 + snd u1 * snd u1
        = ((a * p + b * q) * (a * p + b * q) + (c * p + d * q) * (c * p + d * q)) / (s1 * s1)"
      unfolding f1 by (rule quot_dot)
    also have "\<dots> = 1" unfolding L(1) using z1 by simp
    finally have n1: "fst u1 * fst u1 + snd u1 * snd u1 = 1" .
    show ?thesis
    proof (cases "s2 > 4835703278458517 / 4835703278458516698824704")
      case False
      then have "u2 = (- snd u1, fst u1)" by (simp add: u2)
      then show ?thesis using n1 by (simp add: algebra_simps)
    next
      case big2: True
      then have z2: "s2 * s2 \<noteq> 0" by auto
      have f2: "fst u2 = (a * (- q) + b * p) / s2" "snd u2 = (c * (- q) + d * p) / s2"
        using big2 by (simp_all add: u2)
      have "fst u2 * fst u2 + snd u2 * snd u2
          = ((a * (- q) + b * p) * (a * (- q) + b * p) + (c * (- q) + d * p) * (c * (- q) + d * p)) / (s2 * s2)"
        unfolding f2 by (rule quot_dot)
      also have "\<dots> = 1" unfolding L(2) using z2 by simp
      finally have n2: "fst u2 * fst u2 + snd u2 * snd u2 = 1" .
      have "fst u1 * fst u2 + snd u1 * snd u2
          = ((a * p + b * q) * (a * (- q) + b * p) + (c * p + d * q) * (c * (- q) + d * p)) / (s1 * s2)"
        unfolding f1 f2 by (rule quot_dot)
      also have "\<dots> = 0" unfolding L(3) by simp
      finally show ?thesis using n1 n2 by simp
    qed
  qed
  then show ?thesis unfolding r by (simp add: dot_def col_def)
qed

subsection \<open>A small matrix of rank one\<close>

text \<open>
  The matrix \<open>[[8e-6, 6e-6], [0, 0]]\<close> has the Gram matrix
  \<open>[[6.4e-11, 4.8e-11], [4.8e-11, 3.6e-11]]\<close>. Its off-diagonal entry is not zero and is
  below \<open>1e-10\<close>, so the decomposition takes the coordinate axes for \<open>V\<close>, which are not
  eigenvectors; the singular values are \<open>1e-5\<close> and \<open>0\<close>.
\<close>

lemma sqrt_tenth_20: "sqrt (1 / 100000000000000000000) = 1 / 10000000000"
  by (rule sqrt_eqI) simp_all

lemma sqrt_tenth_10: "sqrt (1 / 10000000000) = 1 / 100000"
  by (rule sqrt_eqI) simp_all

lemma svd_small_rank_one:
  "computeSVD ((8 / 10 ^ 6, 6 / 10 ^ 6), (0, 0)) =
     Some \<lparr> u = ((4 / 5, 0), (0, 4 / 5)), s = (1 / 10 ^ 5, 0),
            v = ((1, 0), (0, 1)), vt = ((1, 0), (0, 1)) \<rparr>"
  by (subst computeSVD_unfolded) (simp add: sqrt_tenth_20 sqrt_tenth_10)

lemma roundtrip_exact_small:
  "\<exists>r. computeSVD ((8 / 10 ^ 6, 6 / 10 ^ 6), (0, 0)) = Some r
      \<and> reconstructMatrix (u r) (s r) (vt r) = ((8 / 10 ^ 6, 0), (0, 0))
      \<and> 1 / 10 ^ 6 < \<bar>entry (reconstructMatrix (u r) (s r) (vt r)) 0 1 - 6 / 10 ^ 6\<bar>"
  unfolding svd_small_rank_one by (simp add: reconstructMatrix_def multiply_def)

lemma u_columns_exact_small:
  "\<exists>r. computeSVD ((8 / 10 ^ 6, 6 / 10 ^ 6), (0, 0)) = Some r
      \<and> u r = ((4 / 5, 0), (0, 4 / 5))
      \<and> vnorm (col (u r) 0) = 4 / 5 \<and> vnorm (col (u r) 1) = 4 / 5
      \<and> 1 / 10 ^ 9 < \<bar>vnorm (col (u r) 0) - 1\<bar>"
proof -
  have "sqrt (16 / 25) = 4 / 5" by (rule sqrt_eqI) simp_all
  then show ?thesis
    unfolding svd_small_rank_one by (simp add: vnorm_def dot_def col_def)
qed

section \<open>Properties in binary64 arithmetic\<close>

subsection \<open>Rounding is determined by a significand and an exponent\<close>

lemma bits_bounds: "0 < n \<Longrightarrow> 2 ^ (bits n - 1) \<le> n \<and> n < 2 ^ bits n"
proof (induction n rule: bits.induct)
  case (1 n)
  show ?case
  proof (cases "n = 1")
    case True
    then show ?thesis by (simp add: bits.simps[of 1] bits.simps[of 0])
  next
    case False
    with 1 have pos: "0 < n div 2" by (simp add: pos_imp_zdiv_pos_iff)
    then have ih: "2 ^ (bits (n div 2) - 1) \<le> n div 2 \<and> n div 2 < 2 ^ bits (n div 2)"
      using 1 by simp
    have b: "bits n = Suc (bits (n div 2))" using 1(2) by (subst bits.simps) simp
    have bp: "0 < bits (n div 2)" using pos by (subst bits.simps) simp
    then obtain j where j: "bits (n div 2) = Suc j" by (cases "bits (n div 2)") auto
    have "2 * 2 ^ j \<le> 2 * (n div 2)" using ih unfolding j by simp
    also have "\<dots> \<le> n" by simp
    finally have lo: "2 ^ (bits n - 1) \<le> n" unfolding b j by simp
    have "n div 2 + 1 \<le> 2 ^ bits (n div 2)" using ih by simp
    then have "2 * (n div 2) + 2 \<le> 2 * 2 ^ bits (n div 2)" by simp
    moreover have "n < 2 * (n div 2) + 2" by presburger
    ultimately have "n < 2 ^ bits n" unfolding b by simp
    with lo show ?thesis by simp
  qed
qed

lemma pow2_less_cancel: "(2::rat) powi a < 2 powi b \<Longrightarrow> a < b"
proof (rule ccontr)
  assume h: "(2::rat) powi a < 2 powi b" and "\<not> a < b"
  then have "b \<le> a" by simp
  then have "(2::rat) powi b \<le> 2 powi a" by (intro power_int_increasing) simp_all
  with h show False by simp
qed

lemma ilog2_ge_one:
  fixes x :: rat
  assumes "1 \<le> x"
  shows "2 powi (int (bits \<lfloor>x\<rfloor>) - 1) \<le> x \<and> x < 2 powi (int (bits \<lfloor>x\<rfloor>))" and "0 < bits \<lfloor>x\<rfloor>"
proof -
  define n where "n = \<lfloor>x\<rfloor>"
  have n: "0 < n" using assms unfolding n_def by simp
  show bp: "0 < bits \<lfloor>x\<rfloor>" using n unfolding n_def by (subst bits.simps) simp
  have b: "2 ^ (bits n - 1) \<le> n" "n < 2 ^ bits n" using bits_bounds[OF n] by simp_all
  have "(2::rat) ^ (bits n - 1) = of_int (2 ^ (bits n - 1))" by simp
  also have "\<dots> \<le> of_int n" using b(1) by (simp only: of_int_le_iff)
  also have "\<dots> \<le> x" unfolding n_def by simp
  finally have lo: "(2::rat) ^ (bits n - 1) \<le> x" .
  have "n + 1 \<le> 2 ^ bits n" using b(2) by simp
  then have "(of_int (n + 1) :: rat) \<le> of_int (2 ^ bits n)" by (simp only: of_int_le_iff)
  moreover have "x < of_int (n + 1)" unfolding n_def by linarith
  ultimately have hi: "x < 2 ^ bits n" by simp
  have e: "int (bits n) - 1 = int (bits n - 1)" using bp unfolding n_def by simp
  show "2 powi (int (bits \<lfloor>x\<rfloor>) - 1) \<le> x \<and> x < 2 powi (int (bits \<lfloor>x\<rfloor>))"
    using lo hi unfolding n_def[symmetric] e by (simp add: power_int_def)
qed

lemma ilog2_bounds:
  assumes "0 < x"
  shows "2 powi (ilog2 x) \<le> x \<and> x < 2 powi (ilog2 x + 1)"
proof (cases "1 \<le> x")
  case True
  then show ?thesis using ilog2_ge_one(1)[OF True] by (simp add: ilog2_def)
next
  case False
  define y where "y = 1 / x"
  have y: "1 \<le> y" using False assms unfolding y_def by simp
  define b where "b = int (bits \<lfloor>y\<rfloor>) - 1"
  have yb: "2 powi b \<le> y" "y < 2 powi (b + 1)" using ilog2_ge_one(1)[OF y] unfolding b_def by simp_all
  have x: "x = 1 / y" unfolding y_def by simp
  have p: "0 < (2::rat) powi b" by simp
  show ?thesis
  proof (cases "y = 2 powi b")
    case True
    have "ilog2 x = - b" using False True unfolding ilog2_def y_def[symmetric] b_def[symmetric] by simp
    moreover have "x = 2 powi (- b)" unfolding x True by (simp add: power_int_minus divide_inverse)
    moreover have "(2::rat) powi (- b) < 2 powi (- b + 1)" by (intro power_int_strict_increasing) simp_all
    ultimately show ?thesis by simp
  next
    case ne: False
    have il: "ilog2 x = - b - 1" using False ne unfolding ilog2_def y_def[symmetric] b_def[symmetric] by simp
    have "x * 2 powi (b + 1) > x * y" using yb(2) assms by simp
    then have "x * 2 powi (b + 1) > 1" unfolding y_def using assms by simp
    then have lo: "2 powi (- b - 1) < x"
      by (simp add: power_int_diff power_int_minus power_int_add field_simps)
    have "2 powi b < y" using yb(1) ne by simp
    then have "x * 2 powi b < x * y" using assms by simp
    then have "x * 2 powi b < 1" unfolding y_def using assms by simp
    then have hi: "x < 2 powi (- b)"
      by (simp add: power_int_minus field_simps)
    show ?thesis unfolding il using lo hi by simp
  qed
qed

lemma ilog2_unique:
  assumes "2 powi e \<le> x" "x < 2 powi (e + 1)"
  shows "ilog2 x = e"
proof -
  have "0 < (2::rat) powi e" by simp
  then have x: "0 < x" using assms(1) by linarith
  note b = ilog2_bounds[OF x]
  have "(2::rat) powi e < 2 powi (ilog2 x + 1)" using assms(1) b by linarith
  then have 1: "e < ilog2 x + 1" by (rule pow2_less_cancel)
  have "(2::rat) powi (ilog2 x) < 2 powi (e + 1)" using assms(2) b by linarith
  then have 2: "ilog2 x < e + 1" by (rule pow2_less_cancel)
  show ?thesis using 1 2 by simp
qed

lemma round_half_even_eqI:
  assumes "\<bar>y - of_int m\<bar> < 1 / 2 \<or> (\<bar>y - of_int m\<bar> = 1 / 2 \<and> even m)"
  shows "round_half_even y = m"
proof -
  define n where "n = \<lfloor>y\<rfloor>"
  have n: "of_int n \<le> y" "y < of_int n + 1" unfolding n_def by linarith+
  from assms have "n = m \<or> n = m - 1" using n by (auto simp: abs_if split: if_splits)
  then show ?thesis
  proof
    assume e: "n = m"
    from assms show ?thesis
      using n unfolding round_half_even_def n_def[symmetric] Let_def e
      by (auto simp: abs_if split: if_splits)
  next
    assume e: "n = m - 1"
    from assms show ?thesis
      using n unfolding round_half_even_def n_def[symmetric] Let_def e
      by (auto simp: abs_if split: if_splits)
  qed
qed

lemma round_f64_pos:
  assumes lo: "2 powi (k + 52) \<le> x" and hi: "x < 2 powi (k + 53)" and k: "- 1074 \<le> k"
    and m: "\<bar>x / 2 powi k - of_int m\<bar> < 1 / 2 \<or> (\<bar>x / 2 powi k - of_int m\<bar> = 1 / 2 \<and> even m)"
    and fin: "of_int m * 2 powi k < (2::rat) powi 1024"
  shows "round_f64 x = Finite (of_int m * 2 powi k)"
proof -
  have "0 < (2::rat) powi (k + 52)" by simp
  then have x: "0 < x" using lo by linarith
  have "ilog2 x = k + 52" using lo hi by (intro ilog2_unique) (simp_all add: add.commute add.left_commute)
  then have e: "max (ilog2 \<bar>x\<bar> - 52) (- 1074) = k" using x k by simp
  have r: "round_half_even (\<bar>x\<bar> / 2 powi k) = m" using m x by (intro round_half_even_eqI) simp
  show ?thesis using x fin unfolding round_f64_def e Let_def r by simp
qed

lemma round_f64_neg:
  assumes lo: "2 powi (k + 52) \<le> - x" and hi: "- x < 2 powi (k + 53)" and k: "- 1074 \<le> k"
    and m: "\<bar>- x / 2 powi k - of_int m\<bar> < 1 / 2 \<or> (\<bar>- x / 2 powi k - of_int m\<bar> = 1 / 2 \<and> even m)"
    and fin: "of_int m * 2 powi k < (2::rat) powi 1024"
  shows "round_f64 x = Finite (- (of_int m * 2 powi k))"
proof -
  have "0 < (2::rat) powi (k + 52)" by simp
  then have x: "x < 0" using lo by linarith
  have "ilog2 (- x) = k + 52" using lo hi by (intro ilog2_unique) (simp_all add: add.commute add.left_commute)
  then have e: "max (ilog2 \<bar>x\<bar> - 52) (- 1074) = k" using x k by simp
  have r: "round_half_even (\<bar>x\<bar> / 2 powi k) = m" using m x by (intro round_half_even_eqI) simp
  show ?thesis using x fin unfolding round_f64_def e Let_def r by simp
qed

lemma isqrt_aux_correct:
  "0 \<le> r \<Longrightarrow> r * r \<le> z \<Longrightarrow> z < (r + 2 ^ i) * (r + 2 ^ i) \<Longrightarrow>
     0 \<le> isqrt_aux i z r \<and> isqrt_aux i z r * isqrt_aux i z r \<le> z
     \<and> z < (isqrt_aux i z r + 1) * (isqrt_aux i z r + 1)"
proof (induction i arbitrary: r)
  case 0
  then show ?case by simp
next
  case (Suc i)
  show ?case
  proof (cases "(r + 2 ^ i) * (r + 2 ^ i) \<le> z")
    case True
    have "z < (r + 2 ^ i + 2 ^ i) * (r + 2 ^ i + 2 ^ i)" using Suc.prems(3) by (simp add: algebra_simps)
    then show ?thesis using True Suc.prems(1) Suc.IH[of "r + 2 ^ i"] by (simp add: Let_def)
  next
    case False
    then show ?thesis using Suc.prems Suc.IH[of r] by (simp add: Let_def)
  qed
qed

lemma sqrt_f64_cert:
  assumes lo: "2 powi (2 * k + 104) \<le> x" and hi: "x < 2 powi (2 * k + 106)"
    and m1: "(of_int m - 1 / 2) * (of_int m - 1 / 2) < x / 2 powi (2 * k)"
    and m2: "x / 2 powi (2 * k) < (of_int m + 1 / 2) * (of_int m + 1 / 2)"
    and mp: "0 < m"
  shows "sqrt_f64 x = Finite (of_int m * 2 powi k)"
proof -
  have "0 < (2::rat) powi (2 * k + 104)" by simp
  then have x: "0 < x" using lo by linarith
  note b = ilog2_bounds[OF x]
  have "(2::rat) powi (2 * k + 104) < 2 powi (ilog2 x + 1)" using lo b by linarith
  then have e1: "2 * k + 104 < ilog2 x + 1" by (rule pow2_less_cancel)
  have "(2::rat) powi (ilog2 x) < 2 powi (2 * k + 106)" using hi b by linarith
  then have e2: "ilog2 x < 2 * k + 106" by (rule pow2_less_cancel)
  have kk: "ilog2 x div 2 - 52 = k" using e1 e2 by presburger
  define z where "z = x / 2 powi (2 * k)"
  have p: "0 < (2::rat) powi (2 * k)" by simp
  have "2 powi (2 * k) * 2 powi 104 \<le> x" using lo by (simp add: power_int_add)
  then have zlo: "2 powi 104 \<le> z" unfolding z_def using p by (simp add: pos_le_divide_eq mult.commute)
  have "x < 2 powi (2 * k) * 2 powi 106" using hi by (simp add: power_int_add)
  then have zhi: "z < 2 powi 106" unfolding z_def using p by (simp add: pos_divide_less_eq mult.commute)
  define Z where "Z = \<lfloor>z\<rfloor>"
  have Z0: "0 \<le> Z" using zlo unfolding Z_def by simp
  have "z < of_int (2 ^ 106)" using zhi by simp
  then have "Z < 2 ^ 106" unfolding Z_def by (simp only: floor_less_iff)
  then have Zhi: "Z < (0 + 2 ^ 53) * (0 + 2 ^ 53)" by simp
  define n where "n = isqrt_aux 53 Z 0"
  have n: "0 \<le> n" "n * n \<le> Z" "Z < (n + 1) * (n + 1)"
    using isqrt_aux_correct[of 0 Z 53, OF _ _ Zhi] Z0 unfolding n_def by simp_all
  have "of_int (n * n) \<le> z" using n(2) unfolding Z_def by (simp only: le_floor_iff)
  then have nz: "of_int n * of_int n \<le> z" by simp
  have "z < of_int ((n + 1) * (n + 1))" using n(3) unfolding Z_def by (simp only: floor_less_iff)
  then have zn: "z < (of_int n + 1) * (of_int n + 1)" by simp
  have up: "n \<le> m"
  proof (rule ccontr)
    assume "\<not> n \<le> m"
    then have "m + 1 \<le> n" by simp
    then have "(of_int m + 1 :: rat) \<le> of_int n" by (metis of_int_le_iff of_int_add of_int_1)
    moreover have "(0::rat) \<le> of_int m + 1" using mp by simp
    ultimately have "(of_int m + 1) * (of_int m + 1 :: rat) \<le> of_int n * of_int n"
      by (intro mult_mono) simp_all
    moreover have "(of_int m + 1 / 2) * (of_int m + 1 / 2 :: rat) \<le> (of_int m + 1) * (of_int m + 1)"
      using mp by (intro mult_mono) simp_all
    ultimately show False using nz m2 unfolding z_def[symmetric] by linarith
  qed
  have dn: "m - 1 \<le> n"
  proof (rule ccontr)
    assume "\<not> m - 1 \<le> n"
    then have "n + 1 \<le> m - 1" by simp
    then have a: "(of_int n + 1 :: rat) \<le> of_int m - 1" by (metis of_int_le_iff of_int_add of_int_diff of_int_1)
    have "(0::rat) \<le> of_int n + 1" using n(1) by simp
    with a have "(of_int n + 1) * (of_int n + 1 :: rat) \<le> (of_int m - 1) * (of_int m - 1)"
      by (intro mult_mono) simp_all
    moreover have "(of_int m - 1) * (of_int m - 1 :: rat) \<le> (of_int m - 1 / 2) * (of_int m - 1 / 2)"
      using a \<open>(0::rat) \<le> of_int n + 1\<close> by (intro mult_mono) simp_all
    ultimately show False using zn m1 unfolding z_def[symmetric] by linarith
  qed
  have sel: "(if z < (of_int n + 1 / 2) * (of_int n + 1 / 2) then n
              else if (of_int n + 1 / 2) * (of_int n + 1 / 2) < z then n + 1
              else if even n then n else n + 1) = m"
  proof (cases "n = m")
    case True
    then show ?thesis using m2 unfolding z_def[symmetric] by simp
  next
    case False
    then have e: "n = m - 1" using up dn by simp
    have "(of_int n + 1 / 2 :: rat) = of_int m - 1 / 2" unfolding e by simp
    then show ?thesis using m1 e unfolding z_def[symmetric] by simp
  qed
  show ?thesis
    unfolding sqrt_f64_def kk Let_def z_def[symmetric] Z_def[symmetric] n_def[symmetric] sel ..
qed

text \<open>
  The rules that evaluate one operation: the result is named by its significand \<open>m\<close>
  and the exponent \<open>k\<close> of its last place, and the premises are comparisons of
  rationals.
\<close>

lemma round_f64_posI:
  assumes "r = of_int m * 2 powi k"
    and "2 powi (k + 52) \<le> x" and "x < 2 powi (k + 53)" and "- 1074 \<le> k"
    and "\<bar>x / 2 powi k - of_int m\<bar> < 1 / 2 \<or> (\<bar>x / 2 powi k - of_int m\<bar> = 1 / 2 \<and> even m)"
    and "r < 2 powi 1024"
  shows "round_f64 x = Finite r"
  using round_f64_pos[of k x m] assms by simp

lemma round_f64_negI:
  assumes "r = - (of_int m * 2 powi k)"
    and "2 powi (k + 52) \<le> - x" and "- x < 2 powi (k + 53)" and "- 1074 \<le> k"
    and "\<bar>- x / 2 powi k - of_int m\<bar> < 1 / 2 \<or> (\<bar>- x / 2 powi k - of_int m\<bar> = 1 / 2 \<and> even m)"
    and "- r < 2 powi 1024"
  shows "round_f64 x = Finite r"
  using round_f64_neg[of k x m] assms by simp

lemma round_f64_zeroI: "x = 0 \<Longrightarrow> round_f64 x = Finite 0"
  by (simp add: round_f64_def)

lemma round_f64_pos_overflowI:
  assumes lo: "2 powi (k + 52) \<le> x" and hi: "x < 2 powi (k + 53)" and k: "- 1074 \<le> k"
    and m: "\<bar>x / 2 powi k - of_int m\<bar> < 1 / 2 \<or> (\<bar>x / 2 powi k - of_int m\<bar> = 1 / 2 \<and> even m)"
    and inf: "(2::rat) powi 1024 \<le> of_int m * 2 powi k"
  shows "round_f64 x = PosInf"
proof -
  have "0 < (2::rat) powi (k + 52)" by simp
  then have x: "0 < x" using lo by linarith
  have "ilog2 x = k + 52" using lo hi by (intro ilog2_unique) (simp_all add: add.commute add.left_commute)
  then have e: "max (ilog2 \<bar>x\<bar> - 52) (- 1074) = k" using x k by simp
  have r: "round_half_even (\<bar>x\<bar> / 2 powi k) = m" using m x by (intro round_half_even_eqI) simp
  show ?thesis using x inf unfolding round_f64_def e Let_def r by simp
qed

lemma sqrt_f64_certI:
  assumes "r = of_int m * 2 powi k"
    and "2 powi (2 * k + 104) \<le> x" and "x < 2 powi (2 * k + 106)"
    and "(of_int m - 1 / 2) * (of_int m - 1 / 2) < x / 2 powi (2 * k)"
    and "x / 2 powi (2 * k) < (of_int m + 1 / 2) * (of_int m + 1 / 2)"
    and "0 < m"
  shows "sqrt_f64 x = Finite r"
  using sqrt_f64_cert[of k x m] assms by simp

lemma fsqrt_pos: "0 < x \<Longrightarrow> fsqrt (Finite x) = sqrt_f64 x"
  by simp

lemma fsqrt_neg: "x < 0 \<Longrightarrow> fsqrt (Finite x) = NaN"
  by simp

lemma fadd_NaN: "fadd x NaN = NaN" "fadd NaN y = NaN"
  by (cases x) simp_all

lemma fmul_NaN: "fmul x NaN = NaN" "fmul NaN y = NaN"
  by (cases x) simp_all

lemma fdiv_finite: "y \<noteq> 0 \<Longrightarrow> fdiv (Finite x) (Finite y) = round_f64 (x / y)"
  by simp

subsection \<open>The zero matrix, with rounding\<close>

lemma z_1: "lit 0 = Finite 0"
  unfolding lit_def by (rule round_f64_zeroI) simp

lemma z_2: "fmul (Finite 0) (Finite 0) = Finite 0"
  unfolding fmul.simps by (rule round_f64_zeroI) simp

lemma z_3: "fadd (Finite 0) (Finite 0) = Finite 0"
  unfolding fadd.simps by (rule round_f64_zeroI) simp

lemma z_4: "fsub (Finite 0) (Finite 0) = Finite 0"
  unfolding fsub_def fneg.simps fadd.simps by (rule round_f64_zeroI) simp

lemma z_5: "fmul (Finite 4) (Finite 0) = Finite 0"
  unfolding fmul.simps by (rule round_f64_zeroI) simp

lemma z_6: "fsqrt (Finite 0) = Finite 0"
  by simp

lemma z_7: "fdiv (Finite 0) (Finite 2) = Finite 0"
proof -
  have "fdiv (Finite 0) (Finite 2) = round_f64 (0 / 2)"
    by (rule fdiv_finite) simp
  also have "\<dots> = Finite 0"
    by (rule round_f64_zeroI) simp
  finally show ?thesis .
qed

lemma z_8: "lit (1 / 10 ^ 10) = Finite (7737125245533627 / 77371252455336267181195264)"
  unfolding lit_def by (rule round_f64_posI[where m = "7737125245533627" and k = "- 86"]) simp_all

lemma z_9: "fabs (Finite 0) = Finite 0"
  by simp

lemma z_10: "flt (Finite 0) (Finite (7737125245533627 / 77371252455336267181195264)) = True"
  by simp

lemma z_11: "fge (Finite 0) (Finite 0) = True"
  by (simp add: fge_def)

lemma z_12: "lit (1 / 10 ^ 9) = Finite (4835703278458517 / 4835703278458516698824704)"
  unfolding lit_def by (rule round_f64_posI[where m = "4835703278458517" and k = "- 82"]) simp_all

lemma z_13: "fgt (Finite 0) (Finite (4835703278458517 / 4835703278458516698824704)) = False"
  by (simp add: fgt_def)

lemma z_14: "fneg (Finite 0) = Finite 0"
  by simp

lemmas z_steps =
  z_1 z_2 z_3 z_4 z_5 z_6 z_7 z_8 z_9 z_10 z_11 z_12 z_13 z_14

lemma svd_f64_zero:
  "computeSVD_f64 ((lit 0, lit 0), (lit 0, lit 0)) =
     \<lparr> u = ((Finite 1, Finite 0), (Finite 0, Finite 1)),
         s = (Finite 0, Finite 0),
         v = ((Finite 1, Finite 0), (Finite 0, Finite 1)),
         vt = ((Finite 1, Finite 0), (Finite 0, Finite 1)) \<rparr>"
  by (simp only: computeSVD_f64_def entry_simps fst_conv snd_conv Let_def z_steps
      fsqrt.simps(4) if_True if_False prod.case)

text \<open>
  C9. On the zero matrix the decomposition returns a result, in exact arithmetic and with
  rounding: the singular values are \<open>(0, 0)\<close> and \<open>U\<close> is the identity, from the
  fallbacks \<open>u1 = (1, 0)\<close> and \<open>u2 = (-u1.y, u1.x)\<close>.
\<close>

theorem svd_zero_matrix:
  "computeSVD ((0, 0), (0, 0)) =
     Some \<lparr> u = ((1, 0), (0, 1)), s = (0, 0), v = ((1, 0), (0, 1)), vt = ((1, 0), (0, 1)) \<rparr>
   \<and> computeSVD_f64 ((lit 0, lit 0), (lit 0, lit 0)) =
     \<lparr> u = ((Finite 1, Finite 0), (Finite 0, Finite 1)), s = (Finite 0, Finite 0),
       v = ((Finite 1, Finite 0), (Finite 0, Finite 1)),
       vt = ((Finite 1, Finite 0), (Finite 0, Finite 1)) \<rparr>"
  using svd_exact_zero svd_f64_zero by (rule conjI)

subsection \<open>The small matrix of rank one, with rounding\<close>

text \<open>
  With rounding, \<open>[[8e-6, 6e-6], [0, 0]]\<close> decomposes as in exact arithmetic up to the
  last place: \<open>U\<close> is \<open>0.7999999999999999\<close> times the identity,
  \<open>S = (1e-5, 0)\<close> and \<open>V\<close> is the identity; the reconstruction is
  \<open>[[8e-6, 0], [0, 0]]\<close>.
\<close>

lemma sm_1: "lit (8 / 10 ^ 6) = Finite (4722366482869645 / 590295810358705651712)"
  unfolding lit_def by (rule round_f64_posI[where m = "4722366482869645" and k = "- 69"]) simp_all

lemma sm_2: "lit (6 / 10 ^ 6) = Finite (1770887431076117 / 295147905179352825856)"
  unfolding lit_def by (rule round_f64_posI[where m = "7083549724304468" and k = "- 70"]) simp_all

lemma sm_3: "lit 0 = Finite 0"
  unfolding lit_def by (rule round_f64_zeroI) simp

lemma sm_4: "fmul (Finite (4722366482869645 / 590295810358705651712)) (Finite (4722366482869645 / 590295810358705651712)) = Finite (4951760157141521 / 77371252455336267181195264)"
  unfolding fmul.simps by (rule round_f64_posI[where m = "4951760157141521" and k = "- 86"]) simp_all

lemma sm_5: "fmul (Finite 0) (Finite 0) = Finite 0"
  unfolding fmul.simps by (rule round_f64_zeroI) simp

lemma sm_6: "fadd (Finite (4951760157141521 / 77371252455336267181195264)) (Finite 0) = Finite (4951760157141521 / 77371252455336267181195264)"
  unfolding fadd.simps by (rule round_f64_posI[where m = "4951760157141521" and k = "- 86"]) simp_all

lemma sm_7: "fmul (Finite (4722366482869645 / 590295810358705651712)) (Finite (1770887431076117 / 295147905179352825856)) = Finite (3713820117856141 / 77371252455336267181195264)"
  unfolding fmul.simps by (rule round_f64_posI[where m = "7427640235712282" and k = "- 87"]) simp_all

lemma sm_8: "fadd (Finite (3713820117856141 / 77371252455336267181195264)) (Finite 0) = Finite (3713820117856141 / 77371252455336267181195264)"
  unfolding fadd.simps by (rule round_f64_posI[where m = "7427640235712282" and k = "- 87"]) simp_all

lemma sm_9: "fmul (Finite (1770887431076117 / 295147905179352825856)) (Finite (1770887431076117 / 295147905179352825856)) = Finite (1392682544196053 / 38685626227668133590597632)"
  unfolding fmul.simps by (rule round_f64_posI[where m = "5570730176784212" and k = "- 87"]) simp_all

lemma sm_10: "fadd (Finite (1392682544196053 / 38685626227668133590597632)) (Finite 0) = Finite (1392682544196053 / 38685626227668133590597632)"
  unfolding fadd.simps by (rule round_f64_posI[where m = "5570730176784212" and k = "- 87"]) simp_all

lemma sm_11: "fsub (Finite (4951760157141521 / 77371252455336267181195264)) (Finite (1392682544196053 / 38685626227668133590597632)) = Finite (2166395068749415 / 77371252455336267181195264)"
  unfolding fsub_def fneg.simps fadd.simps by (rule round_f64_posI[where m = "8665580274997660" and k = "- 88"]) simp_all

lemma sm_12: "fmul (Finite (2166395068749415 / 77371252455336267181195264)) (Finite (2166395068749415 / 77371252455336267181195264)) = Finite (8336917989562989 / 10633823966279326983230456482242756608)"
  unfolding fmul.simps by (rule round_f64_posI[where m = "8336917989562989" and k = "- 123"]) simp_all

lemma sm_13: "fmul (Finite 4) (Finite (3713820117856141 / 77371252455336267181195264)) = Finite (3713820117856141 / 19342813113834066795298816)"
  unfolding fmul.simps by (rule round_f64_posI[where m = "7427640235712282" and k = "- 85"]) simp_all

lemma sm_14: "fmul (Finite (3713820117856141 / 19342813113834066795298816)) (Finite (3713820117856141 / 77371252455336267181195264)) = Finite (6125082604576893 / 664613997892457936451903530140172288)"
  unfolding fmul.simps by (rule round_f64_posI[where m = "6125082604576893" and k = "- 119"]) simp_all

lemma sm_15: "fadd (Finite (8336917989562989 / 10633823966279326983230456482242756608)) (Finite (6125082604576893 / 664613997892457936451903530140172288)) = Finite (1661534994731145 / 166153499473114484112975882535043072)"
  unfolding fadd.simps by (rule round_f64_posI[where m = "6646139978924580" and k = "- 119"]) simp_all

lemma sm_16: "fsqrt (Finite (1661534994731145 / 166153499473114484112975882535043072)) = Finite (7737125245533627 / 77371252455336267181195264)"
proof -
  have "fsqrt (Finite (1661534994731145 / 166153499473114484112975882535043072)) = sqrt_f64 (1661534994731145 / 166153499473114484112975882535043072)"
    by (rule fsqrt_pos) simp
  also have "\<dots> = Finite (7737125245533627 / 77371252455336267181195264)"
    by (rule sqrt_f64_certI[where m = "7737125245533627" and k = "- 86"]) simp_all
  finally show ?thesis .
qed

lemma sm_17: "fadd (Finite (4951760157141521 / 77371252455336267181195264)) (Finite (1392682544196053 / 38685626227668133590597632)) = Finite (7737125245533627 / 77371252455336267181195264)"
  unfolding fadd.simps by (rule round_f64_posI[where m = "7737125245533627" and k = "- 86"]) simp_all

lemma sm_18: "fadd (Finite (7737125245533627 / 77371252455336267181195264)) (Finite (7737125245533627 / 77371252455336267181195264)) = Finite (7737125245533627 / 38685626227668133590597632)"
  unfolding fadd.simps by (rule round_f64_posI[where m = "7737125245533627" and k = "- 85"]) simp_all

lemma sm_19: "fdiv (Finite (7737125245533627 / 38685626227668133590597632)) (Finite 2) = Finite (7737125245533627 / 77371252455336267181195264)"
proof -
  have "fdiv (Finite (7737125245533627 / 38685626227668133590597632)) (Finite 2) = round_f64 ((7737125245533627 / 38685626227668133590597632) / 2)"
    by (rule fdiv_finite) simp
  also have "\<dots> = Finite (7737125245533627 / 77371252455336267181195264)"
    by (rule round_f64_posI[where m = "7737125245533627" and k = "- 86"]) simp_all
  finally show ?thesis .
qed

lemma sm_20: "fsub (Finite (7737125245533627 / 77371252455336267181195264)) (Finite (7737125245533627 / 77371252455336267181195264)) = Finite 0"
  unfolding fsub_def fneg.simps fadd.simps by (rule round_f64_zeroI) simp

lemma sm_21: "fdiv (Finite 0) (Finite 2) = Finite 0"
proof -
  have "fdiv (Finite 0) (Finite 2) = round_f64 (0 / 2)"
    by (rule fdiv_finite) simp
  also have "\<dots> = Finite 0"
    by (rule round_f64_zeroI) simp
  finally show ?thesis .
qed

lemma sm_22: "fsqrt (Finite (7737125245533627 / 77371252455336267181195264)) = Finite (5902958103587057 / 590295810358705651712)"
proof -
  have "fsqrt (Finite (7737125245533627 / 77371252455336267181195264)) = sqrt_f64 (7737125245533627 / 77371252455336267181195264)"
    by (rule fsqrt_pos) simp
  also have "\<dots> = Finite (5902958103587057 / 590295810358705651712)"
    by (rule sqrt_f64_certI[where m = "5902958103587057" and k = "- 69"]) simp_all
  finally show ?thesis .
qed

lemma sm_23: "fsqrt (Finite 0) = Finite 0"
  by simp

lemma sm_24: "lit (1 / 10 ^ 10) = Finite (7737125245533627 / 77371252455336267181195264)"
  unfolding lit_def by (rule round_f64_posI[where m = "7737125245533627" and k = "- 86"]) simp_all

lemma sm_25: "fabs (Finite (3713820117856141 / 77371252455336267181195264)) = Finite (3713820117856141 / 77371252455336267181195264)"
  by simp

lemma sm_26: "flt (Finite (3713820117856141 / 77371252455336267181195264)) (Finite (7737125245533627 / 77371252455336267181195264)) = True"
  by simp

lemma sm_27: "fge (Finite (4951760157141521 / 77371252455336267181195264)) (Finite (1392682544196053 / 38685626227668133590597632)) = True"
  by (simp add: fge_def)

lemma sm_28: "lit (1 / 10 ^ 9) = Finite (4835703278458517 / 4835703278458516698824704)"
  unfolding lit_def by (rule round_f64_posI[where m = "4835703278458517" and k = "- 82"]) simp_all

lemma sm_29: "fgt (Finite (5902958103587057 / 590295810358705651712)) (Finite (4835703278458517 / 4835703278458516698824704)) = True"
  by (simp add: fgt_def)

lemma sm_30: "fmul (Finite (4722366482869645 / 590295810358705651712)) (Finite 1) = Finite (4722366482869645 / 590295810358705651712)"
  unfolding fmul.simps by (rule round_f64_posI[where m = "4722366482869645" and k = "- 69"]) simp_all

lemma sm_31: "fmul (Finite (1770887431076117 / 295147905179352825856)) (Finite 0) = Finite 0"
  unfolding fmul.simps by (rule round_f64_zeroI) simp

lemma sm_32: "fadd (Finite (4722366482869645 / 590295810358705651712)) (Finite 0) = Finite (4722366482869645 / 590295810358705651712)"
  unfolding fadd.simps by (rule round_f64_posI[where m = "4722366482869645" and k = "- 69"]) simp_all

lemma sm_33: "fdiv (Finite (4722366482869645 / 590295810358705651712)) (Finite (5902958103587057 / 590295810358705651712)) = Finite (7205759403792793 / 9007199254740992)"
proof -
  have "fdiv (Finite (4722366482869645 / 590295810358705651712)) (Finite (5902958103587057 / 590295810358705651712)) = round_f64 ((4722366482869645 / 590295810358705651712) / (5902958103587057 / 590295810358705651712))"
    by (rule fdiv_finite) simp
  also have "\<dots> = Finite (7205759403792793 / 9007199254740992)"
    by (rule round_f64_posI[where m = "7205759403792793" and k = "- 53"]) simp_all
  finally show ?thesis .
qed

lemma sm_34: "fmul (Finite 0) (Finite 1) = Finite 0"
  unfolding fmul.simps by (rule round_f64_zeroI) simp

lemma sm_35: "fadd (Finite 0) (Finite 0) = Finite 0"
  unfolding fadd.simps by (rule round_f64_zeroI) simp

lemma sm_36: "fdiv (Finite 0) (Finite (5902958103587057 / 590295810358705651712)) = Finite 0"
proof -
  have "fdiv (Finite 0) (Finite (5902958103587057 / 590295810358705651712)) = round_f64 (0 / (5902958103587057 / 590295810358705651712))"
    by (rule fdiv_finite) simp
  also have "\<dots> = Finite 0"
    by (rule round_f64_zeroI) simp
  finally show ?thesis .
qed

lemma sm_37: "fgt (Finite 0) (Finite (4835703278458517 / 4835703278458516698824704)) = False"
  by (simp add: fgt_def)

lemma sm_38: "fneg (Finite 0) = Finite 0"
  by simp

lemmas sm_steps =
  sm_1 sm_2 sm_3 sm_4 sm_5 sm_6 sm_7 sm_8 sm_9 sm_10 sm_11 sm_12 sm_13 sm_14 sm_15 sm_16 sm_17 sm_18 sm_19 sm_20 sm_21 sm_22 sm_23 sm_24 sm_25 sm_26 sm_27 sm_28 sm_29 sm_30 sm_31 sm_32 sm_33 sm_34 sm_35 sm_36 sm_37 sm_38

lemma svd_f64_small:
  "computeSVD_f64 ((lit (8 / 10 ^ 6), lit (6 / 10 ^ 6)), (lit 0, lit 0)) =
     \<lparr> u = ((Finite (7205759403792793 / 9007199254740992), Finite 0), (Finite 0, Finite (7205759403792793 / 9007199254740992))),
         s = (Finite (5902958103587057 / 590295810358705651712), Finite 0),
         v = ((Finite 1, Finite 0), (Finite 0, Finite 1)),
         vt = ((Finite 1, Finite 0), (Finite 0, Finite 1)) \<rparr>"
  by (simp only: computeSVD_f64_def entry_simps fst_conv snd_conv Let_def sm_steps
      fsqrt.simps(4) if_True if_False prod.case)

lemma sm_39: "fmul (Finite (7205759403792793 / 9007199254740992)) (Finite (5902958103587057 / 590295810358705651712)) = Finite (4722366482869645 / 590295810358705651712)"
  unfolding fmul.simps by (rule round_f64_posI[where m = "4722366482869645" and k = "- 69"]) simp_all

lemma sm_40: "fmul (Finite (7205759403792793 / 9007199254740992)) (Finite 0) = Finite 0"
  unfolding fmul.simps by (rule round_f64_zeroI) simp

lemma sm_41: "fmul (Finite 0) (Finite (5902958103587057 / 590295810358705651712)) = Finite 0"
  unfolding fmul.simps by (rule round_f64_zeroI) simp

lemma sm_42: "fmul (Finite (4722366482869645 / 590295810358705651712)) (Finite 0) = Finite 0"
  unfolding fmul.simps by (rule round_f64_zeroI) simp

lemmas sm_rec_steps =
  sm_39 sm_40 sm_41 sm_42

lemma roundtrip_f64_small:
  "(let r = computeSVD_f64 ((lit (8 / 10 ^ 6), lit (6 / 10 ^ 6)), (lit 0, lit 0))
    in reconstructMatrix_f64 (u r) (s r) (vt r)) =
     ((Finite (4722366482869645 / 590295810358705651712), Finite 0), (Finite 0, Finite 0))"
  unfolding svd_f64_small
  by (simp only: Let_def SVDResult.simps reconstructMatrix_f64_def multiply_f64_def
      entry_simps fst_conv snd_conv sm_rec_steps sm_steps fadd_NaN fmul_NaN)

text \<open>
  C1. Reconstructing from the decomposition should return the matrix within \<open>1e-6\<close> in
  each entry. On \<open>[[8e-6, 6e-6], [0, 0]]\<close> the reconstruction is \<open>[[8e-6, 0], [0, 0]]\<close>,
  in exact arithmetic and with rounding: the entry \<open>(0, 1)\<close> is \<open>0\<close> where the matrix
  has \<open>6e-6\<close>.
\<close>

theorem roundtrip_small_rank_one:
  "(\<exists>r. computeSVD ((8 / 10 ^ 6, 6 / 10 ^ 6), (0, 0)) = Some r
      \<and> reconstructMatrix (u r) (s r) (vt r) = ((8 / 10 ^ 6, 0), (0, 0))
      \<and> 1 / 10 ^ 6 < \<bar>entry (reconstructMatrix (u r) (s r) (vt r)) 0 1 - 6 / 10 ^ 6\<bar>)
   \<and> (let r = computeSVD_f64 ((lit (8 / 10 ^ 6), lit (6 / 10 ^ 6)), (lit 0, lit 0))
      in reconstructMatrix_f64 (u r) (s r) (vt r)) =
     ((Finite (4722366482869645 / 590295810358705651712), Finite 0), (Finite 0, Finite 0))"
  using roundtrip_exact_small roundtrip_f64_small by (rule conjI)

text \<open>
  C2. The columns of \<open>U\<close> and of \<open>V\<close> should have unit norm and be perpendicular. On
  \<open>[[8e-6, 6e-6], [0, 0]]\<close> the matrix \<open>U\<close> is \<open>[[0.8, 0], [0, 0.8]]\<close> in exact
  arithmetic and \<open>0.7999999999999999\<close> times the identity with rounding: each column
  has the norm \<open>0.8\<close>. (The columns of \<open>V\<close> are orthonormal in every branch, see
  \<open>v_proper_rotation\<close>, and those of \<open>U\<close> are when \<open>f\<close> is zero or at least \<open>1e-10\<close>,
  see \<open>u_orthonormal\<close>.)
\<close>

theorem u_columns_small_rank_one:
  "(\<exists>r. computeSVD ((8 / 10 ^ 6, 6 / 10 ^ 6), (0, 0)) = Some r
      \<and> u r = ((4 / 5, 0), (0, 4 / 5))
      \<and> vnorm (col (u r) 0) = 4 / 5 \<and> vnorm (col (u r) 1) = 4 / 5
      \<and> 1 / 10 ^ 9 < \<bar>vnorm (col (u r) 0) - 1\<bar>)
   \<and> u (computeSVD_f64 ((lit (8 / 10 ^ 6), lit (6 / 10 ^ 6)), (lit 0, lit 0))) =
     ((Finite (7205759403792793 / 9007199254740992), Finite 0),
      (Finite 0, Finite (7205759403792793 / 9007199254740992)))"
proof -
  have "u (computeSVD_f64 ((lit (8 / 10 ^ 6), lit (6 / 10 ^ 6)), (lit 0, lit 0))) =
     ((Finite (7205759403792793 / 9007199254740992), Finite 0),
      (Finite 0, Finite (7205759403792793 / 9007199254740992)))"
    by (simp only: svd_f64_small SVDResult.simps)
  with u_columns_exact_small show ?thesis by (rule conjI)
qed

subsection \<open>A matrix of rank one whose smaller eigenvalue rounds below zero\<close>

text \<open>
  The steps of \<open>computeSVD\<close> on \<open>[[0.6, 1.3], [0.3, 0.65]]\<close>, whose second row is
  half the first.
\<close>

lemma r1_1: "lit (6 / 10) = Finite (5404319552844595 / 9007199254740992)"
  unfolding lit_def by (rule round_f64_posI[where m = "5404319552844595" and k = "- 53"]) simp_all

lemma r1_2: "lit (13 / 10) = Finite (5854679515581645 / 4503599627370496)"
  unfolding lit_def by (rule round_f64_posI[where m = "5854679515581645" and k = "- 52"]) simp_all

lemma r1_3: "lit (3 / 10) = Finite (5404319552844595 / 18014398509481984)"
  unfolding lit_def by (rule round_f64_posI[where m = "5404319552844595" and k = "- 54"]) simp_all

lemma r1_4: "lit (65 / 100) = Finite (5854679515581645 / 9007199254740992)"
  unfolding lit_def by (rule round_f64_posI[where m = "5854679515581645" and k = "- 53"]) simp_all

lemma r1_5: "fmul (Finite (5404319552844595 / 9007199254740992)) (Finite (5404319552844595 / 9007199254740992)) = Finite (3242591731706757 / 9007199254740992)"
  unfolding fmul.simps by (rule round_f64_posI[where m = "6485183463413514" and k = "- 54"]) simp_all

lemma r1_6: "fmul (Finite (5404319552844595 / 18014398509481984)) (Finite (5404319552844595 / 18014398509481984)) = Finite (3242591731706757 / 36028797018963968)"
  unfolding fmul.simps by (rule round_f64_posI[where m = "6485183463413514" and k = "- 56"]) simp_all

lemma r1_7: "fadd (Finite (3242591731706757 / 9007199254740992)) (Finite (3242591731706757 / 36028797018963968)) = Finite (2026619832316723 / 4503599627370496)"
  unfolding fadd.simps by (rule round_f64_posI[where m = "8106479329266892" and k = "- 54"]) simp_all

lemma r1_8: "fmul (Finite (5404319552844595 / 9007199254740992)) (Finite (5854679515581645 / 4503599627370496)) = Finite (3512807709348987 / 4503599627370496)"
  unfolding fmul.simps by (rule round_f64_posI[where m = "7025615418697974" and k = "- 53"]) simp_all

lemma r1_9: "fmul (Finite (5404319552844595 / 18014398509481984)) (Finite (5854679515581645 / 9007199254740992)) = Finite (3512807709348987 / 18014398509481984)"
  unfolding fmul.simps by (rule round_f64_posI[where m = "7025615418697974" and k = "- 55"]) simp_all

lemma r1_10: "fadd (Finite (3512807709348987 / 4503599627370496)) (Finite (3512807709348987 / 18014398509481984)) = Finite (2195504818343117 / 2251799813685248)"
  unfolding fadd.simps by (rule round_f64_posI[where m = "8782019273372468" and k = "- 53"]) simp_all

lemma r1_11: "fmul (Finite (5854679515581645 / 4503599627370496)) (Finite (5854679515581645 / 4503599627370496)) = Finite (7611083370256139 / 4503599627370496)"
  unfolding fmul.simps by (rule round_f64_posI[where m = "7611083370256139" and k = "- 52"]) simp_all

lemma r1_12: "fmul (Finite (5854679515581645 / 9007199254740992)) (Finite (5854679515581645 / 9007199254740992)) = Finite (7611083370256139 / 18014398509481984)"
  unfolding fmul.simps by (rule round_f64_posI[where m = "7611083370256139" and k = "- 54"]) simp_all

lemma r1_13: "fadd (Finite (7611083370256139 / 4503599627370496)) (Finite (7611083370256139 / 18014398509481984)) = Finite (4756927106410087 / 2251799813685248)"
  unfolding fadd.simps by (rule round_f64_posI[where m = "4756927106410087" and k = "- 51"]) simp_all

lemma r1_14: "fsub (Finite (2026619832316723 / 4503599627370496)) (Finite (4756927106410087 / 2251799813685248)) = Finite (- (7487234380503451 / 4503599627370496))"
  unfolding fsub_def fneg.simps fadd.simps by (rule round_f64_negI[where m = "7487234380503451" and k = "- 52"]) simp_all

lemma r1_15: "fmul (Finite (- (7487234380503451 / 4503599627370496))) (Finite (- (7487234380503451 / 4503599627370496))) = Finite (6223763578793495 / 2251799813685248)"
  unfolding fmul.simps by (rule round_f64_posI[where m = "6223763578793495" and k = "- 51"]) simp_all

lemma r1_16: "fmul (Finite 4) (Finite (2195504818343117 / 2251799813685248)) = Finite (2195504818343117 / 562949953421312)"
  unfolding fmul.simps by (rule round_f64_posI[where m = "8782019273372468" and k = "- 51"]) simp_all

lemma r1_17: "fmul (Finite (2195504818343117 / 562949953421312)) (Finite (2195504818343117 / 2251799813685248)) = Finite (8562468791538157 / 2251799813685248)"
  unfolding fmul.simps by (rule round_f64_posI[where m = "8562468791538157" and k = "- 51"]) simp_all

lemma r1_18: "fadd (Finite (6223763578793495 / 2251799813685248)) (Finite (8562468791538157 / 2251799813685248)) = Finite (3696558092582913 / 562949953421312)"
  unfolding fadd.simps by (rule round_f64_posI[where m = "7393116185165826" and k = "- 50"]) simp_all

lemma r1_19: "fsqrt (Finite (3696558092582913 / 562949953421312)) = Finite (5770237022568449 / 2251799813685248)"
proof -
  have "fsqrt (Finite (3696558092582913 / 562949953421312)) = sqrt_f64 (3696558092582913 / 562949953421312)"
    by (rule fsqrt_pos) simp
  also have "\<dots> = Finite (5770237022568449 / 2251799813685248)"
    by (rule sqrt_f64_certI[where m = "5770237022568449" and k = "- 51"]) simp_all
  finally show ?thesis .
qed

lemma r1_20: "fadd (Finite (2026619832316723 / 4503599627370496)) (Finite (4756927106410087 / 2251799813685248)) = Finite (41 / 16)"
  unfolding fadd.simps by (rule round_f64_posI[where m = "5770237022568448" and k = "- 51"]) simp_all

lemma r1_21: "fadd (Finite (41 / 16)) (Finite (5770237022568449 / 2251799813685248)) = Finite (41 / 8)"
  unfolding fadd.simps by (rule round_f64_posI[where m = "5770237022568448" and k = "- 50"]) simp_all

lemma r1_22: "fdiv (Finite (41 / 8)) (Finite 2) = Finite (41 / 16)"
proof -
  have "fdiv (Finite (41 / 8)) (Finite 2) = round_f64 ((41 / 8) / 2)"
    by (rule fdiv_finite) simp
  also have "\<dots> = Finite (41 / 16)"
    by (rule round_f64_posI[where m = "5770237022568448" and k = "- 51"]) simp_all
  finally show ?thesis .
qed

lemma r1_23: "fsub (Finite (41 / 16)) (Finite (5770237022568449 / 2251799813685248)) = Finite (- (1 / 2251799813685248))"
  unfolding fsub_def fneg.simps fadd.simps by (rule round_f64_negI[where m = "4503599627370496" and k = "- 103"]) simp_all

lemma r1_24: "fdiv (Finite (- (1 / 2251799813685248))) (Finite 2) = Finite (- (1 / 4503599627370496))"
proof -
  have "fdiv (Finite (- (1 / 2251799813685248))) (Finite 2) = round_f64 ((- (1 / 2251799813685248)) / 2)"
    by (rule fdiv_finite) simp
  also have "\<dots> = Finite (- (1 / 4503599627370496))"
    by (rule round_f64_negI[where m = "4503599627370496" and k = "- 104"]) simp_all
  finally show ?thesis .
qed

lemma r1_25: "fsqrt (Finite (41 / 16)) = Finite (28161238212607 / 17592186044416)"
proof -
  have "fsqrt (Finite (41 / 16)) = sqrt_f64 (41 / 16)"
    by (rule fsqrt_pos) simp
  also have "\<dots> = Finite (28161238212607 / 17592186044416)"
    by (rule sqrt_f64_certI[where m = "7209276982427392" and k = "- 52"]) simp_all
  finally show ?thesis .
qed

lemma r1_26: "fsqrt (Finite (- (1 / 4503599627370496))) = NaN"
  by (rule fsqrt_neg) simp

lemma r1_27: "lit (1 / 10 ^ 10) = Finite (7737125245533627 / 77371252455336267181195264)"
  unfolding lit_def by (rule round_f64_posI[where m = "7737125245533627" and k = "- 86"]) simp_all

lemma r1_28: "fabs (Finite (2195504818343117 / 2251799813685248)) = Finite (2195504818343117 / 2251799813685248)"
  by simp

lemma r1_29: "flt (Finite (2195504818343117 / 2251799813685248)) (Finite (7737125245533627 / 77371252455336267181195264)) = False"
  by simp

lemma r1_30: "fsub (Finite (41 / 16)) (Finite (2026619832316723 / 4503599627370496)) = Finite (2378463553205043 / 1125899906842624)"
  unfolding fsub_def fneg.simps fadd.simps by (rule round_f64_posI[where m = "4756927106410086" and k = "- 51"]) simp_all

lemma r1_31: "fmul (Finite (2195504818343117 / 2251799813685248)) (Finite (2195504818343117 / 2251799813685248)) = Finite (8562468791538157 / 9007199254740992)"
  unfolding fmul.simps by (rule round_f64_posI[where m = "8562468791538157" and k = "- 53"]) simp_all

lemma r1_32: "fmul (Finite (2378463553205043 / 1125899906842624)) (Finite (2378463553205043 / 1125899906842624)) = Finite (5024504256145653 / 1125899906842624)"
  unfolding fmul.simps by (rule round_f64_posI[where m = "5024504256145653" and k = "- 50"]) simp_all

lemma r1_33: "fadd (Finite (8562468791538157 / 9007199254740992)) (Finite (5024504256145653 / 1125899906842624)) = Finite (6094812855087923 / 1125899906842624)"
  unfolding fadd.simps by (rule round_f64_posI[where m = "6094812855087923" and k = "- 50"]) simp_all

lemma r1_34: "fsqrt (Finite (6094812855087923 / 1125899906842624)) = Finite (5239140855432967 / 2251799813685248)"
proof -
  have "fsqrt (Finite (6094812855087923 / 1125899906842624)) = sqrt_f64 (6094812855087923 / 1125899906842624)"
    by (rule fsqrt_pos) simp
  also have "\<dots> = Finite (5239140855432967 / 2251799813685248)"
    by (rule sqrt_f64_certI[where m = "5239140855432967" and k = "- 51"]) simp_all
  finally show ?thesis .
qed

lemma r1_35: "fdiv (Finite (2195504818343117 / 2251799813685248)) (Finite (5239140855432967 / 2251799813685248)) = Finite (7549081007453131 / 18014398509481984)"
proof -
  have "fdiv (Finite (2195504818343117 / 2251799813685248)) (Finite (5239140855432967 / 2251799813685248)) = round_f64 ((2195504818343117 / 2251799813685248) / (5239140855432967 / 2251799813685248))"
    by (rule fdiv_finite) simp
  also have "\<dots> = Finite (7549081007453131 / 18014398509481984)"
    by (rule round_f64_posI[where m = "7549081007453131" and k = "- 54"]) simp_all
  finally show ?thesis .
qed

lemma r1_36: "fdiv (Finite (2378463553205043 / 1125899906842624)) (Finite (5239140855432967 / 2251799813685248)) = Finite (8178171091407557 / 9007199254740992)"
proof -
  have "fdiv (Finite (2378463553205043 / 1125899906842624)) (Finite (5239140855432967 / 2251799813685248)) = round_f64 ((2378463553205043 / 1125899906842624) / (5239140855432967 / 2251799813685248))"
    by (rule fdiv_finite) simp
  also have "\<dots> = Finite (8178171091407557 / 9007199254740992)"
    by (rule round_f64_posI[where m = "8178171091407557" and k = "- 53"]) simp_all
  finally show ?thesis .
qed

lemma r1_37: "fneg (Finite (8178171091407557 / 9007199254740992)) = Finite (- (8178171091407557 / 9007199254740992))"
  by simp

lemma r1_38: "lit (1 / 10 ^ 9) = Finite (4835703278458517 / 4835703278458516698824704)"
  unfolding lit_def by (rule round_f64_posI[where m = "4835703278458517" and k = "- 82"]) simp_all

lemma r1_39: "fgt (Finite (28161238212607 / 17592186044416)) (Finite (4835703278458517 / 4835703278458516698824704)) = True"
  by (simp add: fgt_def)

lemma r1_40: "fmul (Finite (5404319552844595 / 9007199254740992)) (Finite (7549081007453131 / 18014398509481984)) = Finite (2264724302235939 / 9007199254740992)"
  unfolding fmul.simps by (rule round_f64_posI[where m = "4529448604471878" and k = "- 54"]) simp_all

lemma r1_41: "fmul (Finite (5854679515581645 / 4503599627370496)) (Finite (8178171091407557 / 9007199254740992)) = Finite (20764887536777 / 17592186044416)"
  unfolding fmul.simps by (rule round_f64_posI[where m = "5315811209414912" and k = "- 52"]) simp_all

lemma r1_42: "fadd (Finite (2264724302235939 / 9007199254740992)) (Finite (20764887536777 / 17592186044416)) = Finite (3224086680266441 / 2251799813685248)"
  unfolding fadd.simps by (rule round_f64_posI[where m = "6448173360532882" and k = "- 52"]) simp_all

lemma r1_43: "fdiv (Finite (3224086680266441 / 2251799813685248)) (Finite (28161238212607 / 17592186044416)) = Finite (8056283928194521 / 9007199254740992)"
proof -
  have "fdiv (Finite (3224086680266441 / 2251799813685248)) (Finite (28161238212607 / 17592186044416)) = round_f64 ((3224086680266441 / 2251799813685248) / (28161238212607 / 17592186044416))"
    by (rule fdiv_finite) simp
  also have "\<dots> = Finite (8056283928194521 / 9007199254740992)"
    by (rule round_f64_posI[where m = "8056283928194521" and k = "- 53"]) simp_all
  finally show ?thesis .
qed

lemma r1_44: "fmul (Finite (5404319552844595 / 18014398509481984)) (Finite (7549081007453131 / 18014398509481984)) = Finite (2264724302235939 / 18014398509481984)"
  unfolding fmul.simps by (rule round_f64_posI[where m = "4529448604471878" and k = "- 55"]) simp_all

lemma r1_45: "fmul (Finite (5854679515581645 / 9007199254740992)) (Finite (8178171091407557 / 9007199254740992)) = Finite (20764887536777 / 35184372088832)"
  unfolding fmul.simps by (rule round_f64_posI[where m = "5315811209414912" and k = "- 53"]) simp_all

lemma r1_46: "fadd (Finite (2264724302235939 / 18014398509481984)) (Finite (20764887536777 / 35184372088832)) = Finite (3224086680266441 / 4503599627370496)"
  unfolding fadd.simps by (rule round_f64_posI[where m = "6448173360532882" and k = "- 53"]) simp_all

lemma r1_47: "fdiv (Finite (3224086680266441 / 4503599627370496)) (Finite (28161238212607 / 17592186044416)) = Finite (8056283928194521 / 18014398509481984)"
proof -
  have "fdiv (Finite (3224086680266441 / 4503599627370496)) (Finite (28161238212607 / 17592186044416)) = round_f64 ((3224086680266441 / 4503599627370496) / (28161238212607 / 17592186044416))"
    by (rule fdiv_finite) simp
  also have "\<dots> = Finite (8056283928194521 / 18014398509481984)"
    by (rule round_f64_posI[where m = "8056283928194521" and k = "- 54"]) simp_all
  finally show ?thesis .
qed

lemma r1_48: "fgt NaN (Finite (4835703278458517 / 4835703278458516698824704)) = False"
  by (simp add: fgt_def)

lemma r1_49: "fneg (Finite (8056283928194521 / 18014398509481984)) = Finite (- (8056283928194521 / 18014398509481984))"
  by simp

lemmas r1_steps =
  r1_1 r1_2 r1_3 r1_4 r1_5 r1_6 r1_7 r1_8 r1_9 r1_10 r1_11 r1_12 r1_13 r1_14 r1_15 r1_16 r1_17 r1_18 r1_19 r1_20 r1_21 r1_22 r1_23 r1_24 r1_25 r1_26 r1_27 r1_28 r1_29 r1_30 r1_31 r1_32 r1_33 r1_34 r1_35 r1_36 r1_37 r1_38 r1_39 r1_40 r1_41 r1_42 r1_43 r1_44 r1_45 r1_46 r1_47 r1_48 r1_49

lemma svd_f64_r1:
  "computeSVD_f64 ((lit (6 / 10), lit (13 / 10)), (lit (3 / 10), lit (65 / 100))) =
     \<lparr> u = ((Finite (8056283928194521 / 9007199254740992), Finite (- (8056283928194521 / 18014398509481984))), (Finite (8056283928194521 / 18014398509481984), Finite (8056283928194521 / 9007199254740992))),
         s = (Finite (28161238212607 / 17592186044416), NaN),
         v = ((Finite (7549081007453131 / 18014398509481984), Finite (- (8178171091407557 / 9007199254740992))), (Finite (8178171091407557 / 9007199254740992), Finite (7549081007453131 / 18014398509481984))),
         vt = ((Finite (7549081007453131 / 18014398509481984), Finite (8178171091407557 / 9007199254740992)), (Finite (- (8178171091407557 / 9007199254740992)), Finite (7549081007453131 / 18014398509481984))) \<rparr>"
  by (simp only: computeSVD_f64_def entry_simps fst_conv snd_conv Let_def r1_steps
      fsqrt.simps(4) if_True if_False prod.case)

text \<open>
  C3. The singular values should satisfy \<open>s0 \<ge> s1 \<ge> 0\<close>, an eigenvalue that rounding
  noise makes negative being clamped to \<open>0\<close> before the square root, so that no singular
  value is negative or NaN. \<open>computeSVD\<close> takes \<open>Math.sqrt (lambda2)\<close> with no clamp: on
  \<open>[[0.6, 1.3], [0.3, 0.65]]\<close> the Gram matrix has \<open>e + g = 2.5625\<close> and the rounded
  \<open>disc\<close> is \<open>2.5625000000000004\<close>, so \<open>lambda2 = -2^-52\<close> and the second singular
  value is NaN. (In exact arithmetic \<open>lambda2 \<ge> 0\<close> always, lemma
  \<open>singular_values_exact\<close>.)
\<close>

theorem svd_f64_rank_one:
  "computeSVD_f64 ((lit (6 / 10), lit (13 / 10)), (lit (3 / 10), lit (65 / 100))) =
     \<lparr> u = ((Finite (8056283928194521 / 9007199254740992), Finite (- (8056283928194521 / 18014398509481984))), (Finite (8056283928194521 / 18014398509481984), Finite (8056283928194521 / 9007199254740992))),
         s = (Finite (28161238212607 / 17592186044416), NaN),
         v = ((Finite (7549081007453131 / 18014398509481984), Finite (- (8178171091407557 / 9007199254740992))), (Finite (8178171091407557 / 9007199254740992), Finite (7549081007453131 / 18014398509481984))),
         vt = ((Finite (7549081007453131 / 18014398509481984), Finite (8178171091407557 / 9007199254740992)), (Finite (- (8178171091407557 / 9007199254740992)), Finite (7549081007453131 / 18014398509481984))) \<rparr>"
  by (rule svd_f64_r1)

lemma r1_50: "fmul (Finite (8056283928194521 / 9007199254740992)) (Finite (28161238212607 / 17592186044416)) = Finite (3224086680266441 / 2251799813685248)"
  unfolding fmul.simps by (rule round_f64_posI[where m = "6448173360532882" and k = "- 52"]) simp_all

lemma r1_51: "fmul (Finite (- (8056283928194521 / 18014398509481984))) (Finite 0) = Finite 0"
  unfolding fmul.simps by (rule round_f64_zeroI) simp

lemma r1_52: "fadd (Finite (3224086680266441 / 2251799813685248)) (Finite 0) = Finite (3224086680266441 / 2251799813685248)"
  unfolding fadd.simps by (rule round_f64_posI[where m = "6448173360532882" and k = "- 52"]) simp_all

lemma r1_53: "fmul (Finite (8056283928194521 / 9007199254740992)) (Finite 0) = Finite 0"
  unfolding fmul.simps by (rule round_f64_zeroI) simp

lemma r1_54: "fmul (Finite (8056283928194521 / 18014398509481984)) (Finite (28161238212607 / 17592186044416)) = Finite (3224086680266441 / 4503599627370496)"
  unfolding fmul.simps by (rule round_f64_posI[where m = "6448173360532882" and k = "- 53"]) simp_all

lemma r1_55: "fadd (Finite (3224086680266441 / 4503599627370496)) (Finite 0) = Finite (3224086680266441 / 4503599627370496)"
  unfolding fadd.simps by (rule round_f64_posI[where m = "6448173360532882" and k = "- 53"]) simp_all

lemma r1_56: "fmul (Finite (8056283928194521 / 18014398509481984)) (Finite 0) = Finite 0"
  unfolding fmul.simps by (rule round_f64_zeroI) simp

lemma r1_57: "fmul (Finite (3224086680266441 / 2251799813685248)) (Finite (7549081007453131 / 18014398509481984)) = Finite (5404319552844595 / 9007199254740992)"
  unfolding fmul.simps by (rule round_f64_posI[where m = "5404319552844595" and k = "- 53"]) simp_all

lemma r1_58: "fmul (Finite (3224086680266441 / 2251799813685248)) (Finite (8178171091407557 / 9007199254740992)) = Finite (1463669878895411 / 1125899906842624)"
  unfolding fmul.simps by (rule round_f64_posI[where m = "5854679515581644" and k = "- 52"]) simp_all

lemma r1_59: "fmul (Finite (3224086680266441 / 4503599627370496)) (Finite (7549081007453131 / 18014398509481984)) = Finite (5404319552844595 / 18014398509481984)"
  unfolding fmul.simps by (rule round_f64_posI[where m = "5404319552844595" and k = "- 54"]) simp_all

lemma r1_60: "fmul (Finite (3224086680266441 / 4503599627370496)) (Finite (8178171091407557 / 9007199254740992)) = Finite (1463669878895411 / 2251799813685248)"
  unfolding fmul.simps by (rule round_f64_posI[where m = "5854679515581644" and k = "- 53"]) simp_all

lemmas r1_rec_steps =
  r1_50 r1_51 r1_52 r1_53 r1_54 r1_55 r1_56 r1_57 r1_58 r1_59 r1_60

text \<open>The NaN reaches every entry of the reconstruction.\<close>

lemma roundtrip_f64_rank_one:
  "(let r = computeSVD_f64 ((lit (6 / 10), lit (13 / 10)), (lit (3 / 10), lit (65 / 100)))
    in reconstructMatrix_f64 (u r) (s r) (vt r)) =
     ((NaN, NaN), (NaN, NaN))"
  unfolding svd_f64_r1
  by (simp only: Let_def SVDResult.simps reconstructMatrix_f64_def multiply_f64_def
      entry_simps fst_conv snd_conv r1_rec_steps r1_steps fadd_NaN fmul_NaN)

subsection \<open>The right singular vectors, with rounding\<close>


















































text \<open>
  The steps of \<open>computeSVD\<close> on \<open>[[2^511, 2^511], [0, 0]]\<close>, a matrix of finite
  numbers: \<open>f\<close> is \<open>2^1022\<close> and \<open>4 * f\<close> overflows, so \<open>disc\<close> and \<open>lambda1\<close> are
  infinite and the normalisation of \<open>v1\<close> divides an infinity by an infinity.
\<close>

lemma ov_1: "lit (2 ^ 511) = Finite 6703903964971298549787012499102923063739682910296196688861780721860882015036773488400937149083451713845015929093243025426876941405973284973216824503042048"
  unfolding lit_def by (rule round_f64_posI[where m = "4503599627370496" and k = "459"]) simp_all

lemma ov_2: "lit 0 = Finite 0"
  unfolding lit_def by (rule round_f64_zeroI) simp

lemma ov_3: "fmul (Finite 6703903964971298549787012499102923063739682910296196688861780721860882015036773488400937149083451713845015929093243025426876941405973284973216824503042048) (Finite 6703903964971298549787012499102923063739682910296196688861780721860882015036773488400937149083451713845015929093243025426876941405973284973216824503042048) = Finite 44942328371557897693232629769725618340449424473557664318357520289433168951375240783177119330601884005280028469967848339414697442203604155623211857659868531094441973356216371319075554900311523529863270738021251442209537670585615720368478277635206809290837627671146574559986811484619929076208839082406056034304"
  unfolding fmul.simps by (rule round_f64_posI[where m = "4503599627370496" and k = "970"]) simp_all

lemma ov_4: "fmul (Finite 0) (Finite 0) = Finite 0"
  unfolding fmul.simps by (rule round_f64_zeroI) simp

lemma ov_5: "fadd (Finite 44942328371557897693232629769725618340449424473557664318357520289433168951375240783177119330601884005280028469967848339414697442203604155623211857659868531094441973356216371319075554900311523529863270738021251442209537670585615720368478277635206809290837627671146574559986811484619929076208839082406056034304) (Finite 0) = Finite 44942328371557897693232629769725618340449424473557664318357520289433168951375240783177119330601884005280028469967848339414697442203604155623211857659868531094441973356216371319075554900311523529863270738021251442209537670585615720368478277635206809290837627671146574559986811484619929076208839082406056034304"
  unfolding fadd.simps by (rule round_f64_posI[where m = "4503599627370496" and k = "970"]) simp_all

lemma ov_6: "fsub (Finite 44942328371557897693232629769725618340449424473557664318357520289433168951375240783177119330601884005280028469967848339414697442203604155623211857659868531094441973356216371319075554900311523529863270738021251442209537670585615720368478277635206809290837627671146574559986811484619929076208839082406056034304) (Finite 44942328371557897693232629769725618340449424473557664318357520289433168951375240783177119330601884005280028469967848339414697442203604155623211857659868531094441973356216371319075554900311523529863270738021251442209537670585615720368478277635206809290837627671146574559986811484619929076208839082406056034304) = Finite 0"
  unfolding fsub_def fneg.simps fadd.simps by (rule round_f64_zeroI) simp

lemma ov_7: "fmul (Finite 4) (Finite 44942328371557897693232629769725618340449424473557664318357520289433168951375240783177119330601884005280028469967848339414697442203604155623211857659868531094441973356216371319075554900311523529863270738021251442209537670585615720368478277635206809290837627671146574559986811484619929076208839082406056034304) = PosInf"
  unfolding fmul.simps by (rule round_f64_pos_overflowI[where m = "4503599627370496" and k = "972"]) simp_all

lemma ov_8: "fmul PosInf (Finite 44942328371557897693232629769725618340449424473557664318357520289433168951375240783177119330601884005280028469967848339414697442203604155623211857659868531094441973356216371319075554900311523529863270738021251442209537670585615720368478277635206809290837627671146574559986811484619929076208839082406056034304) = PosInf"
  by (simp add: fsub_def)

lemma ov_9: "fadd (Finite 0) PosInf = PosInf"
  by (simp add: fsub_def)

lemma ov_10: "fsqrt PosInf = PosInf"
  by simp

lemma ov_11: "fadd (Finite 44942328371557897693232629769725618340449424473557664318357520289433168951375240783177119330601884005280028469967848339414697442203604155623211857659868531094441973356216371319075554900311523529863270738021251442209537670585615720368478277635206809290837627671146574559986811484619929076208839082406056034304) (Finite 44942328371557897693232629769725618340449424473557664318357520289433168951375240783177119330601884005280028469967848339414697442203604155623211857659868531094441973356216371319075554900311523529863270738021251442209537670585615720368478277635206809290837627671146574559986811484619929076208839082406056034304) = Finite 89884656743115795386465259539451236680898848947115328636715040578866337902750481566354238661203768010560056939935696678829394884407208311246423715319737062188883946712432742638151109800623047059726541476042502884419075341171231440736956555270413618581675255342293149119973622969239858152417678164812112068608"
  unfolding fadd.simps by (rule round_f64_posI[where m = "4503599627370496" and k = "971"]) simp_all

lemma ov_12: "fadd (Finite 89884656743115795386465259539451236680898848947115328636715040578866337902750481566354238661203768010560056939935696678829394884407208311246423715319737062188883946712432742638151109800623047059726541476042502884419075341171231440736956555270413618581675255342293149119973622969239858152417678164812112068608) PosInf = PosInf"
  by (simp add: fsub_def)

lemma ov_13: "fdiv PosInf (Finite 2) = PosInf"
  by simp

lemma ov_14: "fsub (Finite 89884656743115795386465259539451236680898848947115328636715040578866337902750481566354238661203768010560056939935696678829394884407208311246423715319737062188883946712432742638151109800623047059726541476042502884419075341171231440736956555270413618581675255342293149119973622969239858152417678164812112068608) PosInf = NegInf"
  by (simp add: fsub_def)

lemma ov_15: "fdiv NegInf (Finite 2) = NegInf"
  by simp

lemma ov_16: "fsqrt NegInf = NaN"
  by simp

lemma ov_17: "lit (1 / 10 ^ 10) = Finite (7737125245533627 / 77371252455336267181195264)"
  unfolding lit_def by (rule round_f64_posI[where m = "7737125245533627" and k = "- 86"]) simp_all

lemma ov_18: "fabs (Finite 44942328371557897693232629769725618340449424473557664318357520289433168951375240783177119330601884005280028469967848339414697442203604155623211857659868531094441973356216371319075554900311523529863270738021251442209537670585615720368478277635206809290837627671146574559986811484619929076208839082406056034304) = Finite 44942328371557897693232629769725618340449424473557664318357520289433168951375240783177119330601884005280028469967848339414697442203604155623211857659868531094441973356216371319075554900311523529863270738021251442209537670585615720368478277635206809290837627671146574559986811484619929076208839082406056034304"
  by simp

lemma ov_19: "flt (Finite 44942328371557897693232629769725618340449424473557664318357520289433168951375240783177119330601884005280028469967848339414697442203604155623211857659868531094441973356216371319075554900311523529863270738021251442209537670585615720368478277635206809290837627671146574559986811484619929076208839082406056034304) (Finite (7737125245533627 / 77371252455336267181195264)) = False"
  by simp

lemma ov_20: "fsub PosInf (Finite 44942328371557897693232629769725618340449424473557664318357520289433168951375240783177119330601884005280028469967848339414697442203604155623211857659868531094441973356216371319075554900311523529863270738021251442209537670585615720368478277635206809290837627671146574559986811484619929076208839082406056034304) = PosInf"
  by (simp add: fsub_def)

lemma ov_21: "fmul (Finite 44942328371557897693232629769725618340449424473557664318357520289433168951375240783177119330601884005280028469967848339414697442203604155623211857659868531094441973356216371319075554900311523529863270738021251442209537670585615720368478277635206809290837627671146574559986811484619929076208839082406056034304) (Finite 44942328371557897693232629769725618340449424473557664318357520289433168951375240783177119330601884005280028469967848339414697442203604155623211857659868531094441973356216371319075554900311523529863270738021251442209537670585615720368478277635206809290837627671146574559986811484619929076208839082406056034304) = PosInf"
  unfolding fmul.simps by (rule round_f64_pos_overflowI[where m = "4503599627370496" and k = "1992"]) simp_all

lemma ov_22: "fmul PosInf PosInf = PosInf"
  by (simp add: fsub_def)

lemma ov_23: "fadd PosInf PosInf = PosInf"
  by (simp add: fsub_def)

lemma ov_24: "fdiv (Finite 44942328371557897693232629769725618340449424473557664318357520289433168951375240783177119330601884005280028469967848339414697442203604155623211857659868531094441973356216371319075554900311523529863270738021251442209537670585615720368478277635206809290837627671146574559986811484619929076208839082406056034304) PosInf = Finite 0"
  by simp

lemma ov_25: "fdiv PosInf PosInf = NaN"
  by simp

lemma ov_26: "fneg NaN = NaN"
  by simp

lemma ov_27: "lit (1 / 10 ^ 9) = Finite (4835703278458517 / 4835703278458516698824704)"
  unfolding lit_def by (rule round_f64_posI[where m = "4835703278458517" and k = "- 82"]) simp_all

lemma ov_28: "fgt PosInf (Finite (4835703278458517 / 4835703278458516698824704)) = True"
  by (simp add: fgt_def)

lemma ov_29: "fmul (Finite 6703903964971298549787012499102923063739682910296196688861780721860882015036773488400937149083451713845015929093243025426876941405973284973216824503042048) (Finite 0) = Finite 0"
  unfolding fmul.simps by (rule round_f64_zeroI) simp

lemma ov_30: "fdiv NaN PosInf = NaN"
  by simp

lemma ov_31: "fgt NaN (Finite (4835703278458517 / 4835703278458516698824704)) = False"
  by (simp add: fgt_def)

lemmas ov_steps =
  ov_1 ov_2 ov_3 ov_4 ov_5 ov_6 ov_7 ov_8 ov_9 ov_10 ov_11 ov_12 ov_13 ov_14 ov_15 ov_16 ov_17 ov_18 ov_19 ov_20 ov_21 ov_22 ov_23 ov_24 ov_25 ov_26 ov_27 ov_28 ov_29 ov_30 ov_31

lemma svd_f64_overflow:
  "computeSVD_f64 ((lit (2 ^ 511), lit (2 ^ 511)), (lit 0, lit 0)) =
     \<lparr> u = ((NaN, NaN), (NaN, NaN)),
         s = (PosInf, NaN),
         v = ((Finite 0, NaN), (NaN, Finite 0)),
         vt = ((Finite 0, NaN), (NaN, Finite 0)) \<rparr>"
  by (simp only: computeSVD_f64_def entry_simps fst_conv snd_conv Let_def ov_steps
      fsqrt.simps(4) fadd_NaN fmul_NaN if_True if_False prod.case)

text \<open>
  C5, the claim as stated. The comparison \<open>vt[i][j] == v[j][i]\<close> should be true for
  every finite matrix. On \<open>[[2^511, 2^511], [0, 0]]\<close> the entries \<open>vt[0][1]\<close> and
  \<open>v[1][0]\<close> are NaN, and the comparison of NaN with NaN is false.
\<close>

theorem vt_entry_compares_unequal:
  "entry (vt (computeSVD_f64 ((lit (2 ^ 511), lit (2 ^ 511)), (lit 0, lit 0)))) 0 1 = NaN
   \<and> entry (v (computeSVD_f64 ((lit (2 ^ 511), lit (2 ^ 511)), (lit 0, lit 0)))) 1 0 = NaN
   \<and> \<not> feq (entry (vt (computeSVD_f64 ((lit (2 ^ 511), lit (2 ^ 511)), (lit 0, lit 0)))) 0 1)
            (entry (v (computeSVD_f64 ((lit (2 ^ 511), lit (2 ^ 511)), (lit 0, lit 0)))) 1 0)"
  unfolding svd_f64_overflow by (simp add: feq_def)

text \<open>
  C5. For every matrix of binary64 numbers, finite or not, the field \<open>vt\<close> of the result
  is the transpose of the field \<open>v\<close> as a matrix of values: \<open>vt[i][j]\<close> and \<open>v[j][i]\<close> are
  the same number, or both NaN, for \<open>i, j\<close> in \<open>{0, 1}\<close>. The comparison
  \<open>vt[i][j] == v[j][i]\<close> is true exactly where the entry is not NaN.
\<close>

theorem vt_transposes_v:
  "vt (computeSVD_f64 A) = transpose2 (v (computeSVD_f64 A))
   \<and> entry (vt (computeSVD_f64 A)) 0 0 = entry (v (computeSVD_f64 A)) 0 0
   \<and> entry (vt (computeSVD_f64 A)) 0 1 = entry (v (computeSVD_f64 A)) 1 0
   \<and> entry (vt (computeSVD_f64 A)) 1 0 = entry (v (computeSVD_f64 A)) 0 1
   \<and> entry (vt (computeSVD_f64 A)) 1 1 = entry (v (computeSVD_f64 A)) 1 1
   \<and> feq (entry (vt (computeSVD_f64 A)) 0 0) (entry (v (computeSVD_f64 A)) 0 0)
       = (entry (v (computeSVD_f64 A)) 0 0 \<noteq> NaN)
   \<and> feq (entry (vt (computeSVD_f64 A)) 0 1) (entry (v (computeSVD_f64 A)) 1 0)
       = (entry (v (computeSVD_f64 A)) 1 0 \<noteq> NaN)
   \<and> feq (entry (vt (computeSVD_f64 A)) 1 0) (entry (v (computeSVD_f64 A)) 0 1)
       = (entry (v (computeSVD_f64 A)) 0 1 \<noteq> NaN)
   \<and> feq (entry (vt (computeSVD_f64 A)) 1 1) (entry (v (computeSVD_f64 A)) 1 1)
       = (entry (v (computeSVD_f64 A)) 1 1 \<noteq> NaN)"
  by (simp add: computeSVD_f64_def Let_def split_beta transpose2_def feq_def)

section \<open>Properties of the angle codec\<close>

subsection \<open>\<open>Math.PI\<close> and \<open>\<pi>\<close>\<close>

text \<open>
  Machin's formula and the alternating series of the arctangent give
  \<open>Math.PI < \<pi> < Math.PI + 2.5e-16\<close>: \<open>Math.PI\<close> is below \<open>\<pi>\<close>, and the next binary64
  number, \<open>Math.PI + 2^-51\<close>, is above it.
\<close>

lemma arctan_series_bounds:
  fixes x :: real
  assumes "0 < x" "x \<le> 1"
  shows "(\<Sum>i<2 * n. (- 1) ^ i * (1 / real (i * 2 + 1) * x ^ (i * 2 + 1))) \<le> arctan x"
    and "arctan x \<le> (\<Sum>i<2 * n + 1. (- 1) ^ i * (1 / real (i * 2 + 1) * x ^ (i * 2 + 1)))"
proof -
  let ?a = "\<lambda>n. 1 / real (n * 2 + 1) * x ^ (n * 2 + 1)"
  have z: "?a \<longlonglongrightarrow> 0" using assms by (intro zeroseq_arctan_series) simp
  have m: "monoseq ?a" using assms by (intro monoseq_arctan_series) simp
  have p: "0 < ?a 0" using assms by simp
  have b: "(\<Sum>i. (- 1) ^ i * ?a i) \<in> {\<Sum>i<2 * n. (- 1) ^ i * ?a i .. \<Sum>i<2 * n + 1. (- 1) ^ i * ?a i}"
    using summable_Leibniz(2)[OF z m] p by blast
  have e: "arctan x = (\<Sum>k. (- 1) ^ k * ?a k)" using assms by (intro arctan_series) simp
  show "(\<Sum>i<2 * n. (- 1) ^ i * ?a i) \<le> arctan x" using b unfolding e by simp
  show "arctan x \<le> (\<Sum>i<2 * n + 1. (- 1) ^ i * ?a i)" using b unfolding e by simp
qed

lemma pi_lower: "884279719003555 / 281474976710656 < pi"
proof -
  have l5: "(\<Sum>i<2 * 6. (- 1) ^ i * (1 / real (i * 2 + 1) * (1 / 5) ^ (i * 2 + 1))) \<le> arctan (1 / 5)"
    by (rule arctan_series_bounds) simp_all
  have u239: "arctan (1 / 239) \<le> (\<Sum>i<2 * 2 + 1. (- 1) ^ i * (1 / real (i * 2 + 1) * (1 / 239) ^ (i * 2 + 1)))"
    by (rule arctan_series_bounds) simp_all
  have p: "pi = 16 * arctan (1 / 5) - 4 * arctan (1 / 239)" using machin by simp
  have "884279719003555 / 281474976710656 <
     16 * (\<Sum>i<2 * 6. (- 1) ^ i * (1 / real (i * 2 + 1) * (1 / 5) ^ (i * 2 + 1)))
     - 4 * (\<Sum>i<2 * 2 + 1. (- 1) ^ i * (1 / real (i * 2 + 1) * (1 / 239) ^ (i * 2 + 1)))"
    by (simp add: eval_nat_numeral)
  then show ?thesis using l5 u239 unfolding p by linarith
qed

lemma pi_upper: "pi < 884279719003555 / 281474976710656 + 1 / 4000000000000000"
proof -
  have u5: "arctan (1 / 5) \<le> (\<Sum>i<2 * 6 + 1. (- 1) ^ i * (1 / real (i * 2 + 1) * (1 / 5) ^ (i * 2 + 1)))"
    by (rule arctan_series_bounds) simp_all
  have l239: "(\<Sum>i<2 * 2. (- 1) ^ i * (1 / real (i * 2 + 1) * (1 / 239) ^ (i * 2 + 1))) \<le> arctan (1 / 239)"
    by (rule arctan_series_bounds) simp_all
  have p: "pi = 16 * arctan (1 / 5) - 4 * arctan (1 / 239)" using machin by simp
  have "16 * (\<Sum>i<2 * 6 + 1. (- 1) ^ i * (1 / real (i * 2 + 1) * (1 / 5) ^ (i * 2 + 1)))
     - 4 * (\<Sum>i<2 * 2. (- 1) ^ i * (1 / real (i * 2 + 1) * (1 / 239) ^ (i * 2 + 1)))
     < 884279719003555 / 281474976710656 + 1 / 4000000000000000"
    by (simp add: eval_nat_numeral)
  then show ?thesis using u5 l239 unfolding p by linarith
qed

lemma Math_PI_less_pi: "real_of_rat Math_PI < pi"
  unfolding Math_PI_def using pi_lower by (simp add: of_rat_divide)

lemma pi_less_next: "pi < real_of_rat Math_PI + 1 / 4000000000000000"
  unfolding Math_PI_def using pi_upper by (simp add: of_rat_divide)

lemma Math_PI_pos: "0 < Math_PI"
  by (simp add: Math_PI_def)

lemma in_principal_range:
  assumes "- Math_PI \<le> a" "a \<le> Math_PI"
  shows "- pi < real_of_rat a" "real_of_rat a \<le> pi"
proof -
  have 1: "- real_of_rat Math_PI \<le> real_of_rat a"
    using assms(1) by (metis of_rat_less_eq of_rat_minus)
  have 2: "real_of_rat a \<le> real_of_rat Math_PI" using assms(2) by (simp add: of_rat_less_eq)
  show "- pi < real_of_rat a" using 1 Math_PI_less_pi by linarith
  show "real_of_rat a \<le> pi" using 2 Math_PI_less_pi by linarith
qed

subsection \<open>The principal angle\<close>

text \<open>
  \<open>polar_angle y x\<close> lies in \<open>(-\<pi>, \<pi>]\<close>, it is the angle of the polar coordinates of
  \<open>(x, y)\<close>, and every real number differs from a number of \<open>(-\<pi>, \<pi>]\<close> by a multiple
  of \<open>2\<pi>\<close>.
\<close>

lemma polar_angle_range: "- pi < polar_angle y x \<and> polar_angle y x \<le> pi"
proof -
  have b: "- (pi / 2) < arctan (y / x)" "arctan (y / x) < pi / 2"
    by (rule arctan_lbound, rule arctan_ubound)
  have p: "0 < pi" by (rule pi_gt_zero)
  consider "0 < x" | "x < 0" "0 \<le> y" | "x < 0" "y < 0" | "x = 0" by linarith
  then show ?thesis
  proof cases
    case 1
    then show ?thesis using b p by (simp add: polar_angle_def)
  next
    case 2
    then have "y / x \<le> 0" by (simp add: divide_nonneg_neg)
    then have "arctan (y / x) \<le> 0" by simp
    then show ?thesis using 2 b p by (simp add: polar_angle_def)
  next
    case 3
    then have "0 < y / x" by (simp add: divide_neg_neg)
    then have "0 < arctan (y / x)" by simp
    then show ?thesis using 3 b p by (simp add: polar_angle_def)
  next
    case 4
    have h: "- (pi / 2) \<le> pi" using p by linarith
    show ?thesis using 4 by (simp add: polar_angle_def h)
  qed
qed

lemma polar_angle_sin_cos:
  assumes "- pi < t" "t \<le> pi"
  shows "polar_angle (sin t) (cos t) = t"
proof -
  consider "- (pi / 2) < t" "t < pi / 2" | "pi / 2 < t" | "t < - (pi / 2)" | "t = pi / 2" | "t = - (pi / 2)"
    by linarith
  then show ?thesis
  proof cases
    case 1
    then have c: "0 < cos t" by (simp add: cos_gt_zero_pi)
    have "arctan (sin t / cos t) = arctan (tan t)" by (simp add: tan_def)
    also have "\<dots> = t" using 1 by (simp add: arctan_tan)
    finally show ?thesis using c by (simp add: polar_angle_def)
  next
    case 2
    define w where "w = t - pi"
    have w: "- (pi / 2) < w" "w \<le> 0" using 2 assms by (simp_all add: w_def)
    then have cw: "0 < cos w" by (intro cos_gt_zero_pi) (use pi_gt_zero in linarith)+
    have "0 \<le> sin (- w)" using w pi_gt_zero by (intro sin_ge_zero) linarith+
    then have sw: "sin w \<le> 0" by simp
    have t: "t = w + pi" by (simp add: w_def)
    have c: "cos t = - cos w" and sn: "sin t = - sin w" unfolding t by simp_all
    have "arctan (sin t / cos t) = arctan (tan w)" by (simp add: c sn tan_def)
    also have "\<dots> = w" using w pi_gt_zero by (intro arctan_tan) linarith+
    finally show ?thesis using cw sw by (simp add: polar_angle_def c sn t)
  next
    case 3
    define w where "w = t + pi"
    have w: "0 < w" "w < pi / 2" using 3 assms by (simp_all add: w_def)
    then have cw: "0 < cos w" by (intro cos_gt_zero_pi) (use pi_gt_zero in linarith)+
    have sw: "0 < sin w" using w by (intro sin_gt_zero) (use pi_gt_zero in linarith)+
    have t: "t = w - pi" by (simp add: w_def)
    have c: "cos t = - cos w" and sn: "sin t = - sin w" unfolding t by simp_all
    have "arctan (sin t / cos t) = arctan (tan w)" by (simp add: c sn tan_def)
    also have "\<dots> = w" using w pi_gt_zero by (intro arctan_tan) linarith+
    finally show ?thesis using cw sw by (simp add: polar_angle_def c sn t)
  next
    case 4
    have "cos t = 0" "sin t = 1" unfolding 4 by simp_all
    then show ?thesis unfolding polar_angle_def 4 by simp
  next
    case 5
    have "cos t = 0" "sin t = - 1" unfolding 5 by simp_all
    then show ?thesis unfolding polar_angle_def 5 by simp
  qed
qed

lemma polar_angle_scale: "0 < r \<Longrightarrow> polar_angle (r * y) (r * x) = polar_angle y x"
  by (simp add: polar_angle_def zero_less_mult_iff mult_less_0_iff zero_le_mult_iff)

lemma polar_angle_polar:
  assumes "x \<noteq> 0 \<or> y \<noteq> 0"
  shows "sqrt (x * x + y * y) * cos (polar_angle y x) = x"
    and "sqrt (x * x + y * y) * sin (polar_angle y x) = y"
proof -
  define r where "r = sqrt (x * x + y * y)"
  have "0 < x * x + y * y" using assms by (metis add.commute mult_eq_0_iff not_sum_squares_lt_zero linorder_neqE_linordered_idom sum_squares_eq_zero_iff)
  then have r: "0 < r" and rr: "r * r = x * x + y * y" unfolding r_def by simp_all
  have "(x / r)\<^sup>2 + (y / r)\<^sup>2 = (x * x + y * y) / (r * r)"
    by (simp add: power2_eq_square add_divide_distrib)
  also have "\<dots> = 1" using r unfolding rr[symmetric] by simp
  finally have "(x / r)\<^sup>2 + (y / r)\<^sup>2 = 1" .
  then obtain t0 where t0: "0 \<le> t0" "t0 < 2 * pi" "x / r = cos t0" "y / r = sin t0"
    using sincos_total_2pi by blast
  obtain t where t: "- pi < t" "t \<le> pi" "sin t = sin t0" "cos t = cos t0"
    using sincos_principal_value[of t0] by blast
  have x: "x = r * cos t" and y: "y = r * sin t" using t0 t r by (simp_all add: field_simps)
  have "polar_angle y x = polar_angle (sin t) (cos t)" unfolding x y using r by (rule polar_angle_scale)
  also have "\<dots> = t" using t(1,2) by (rule polar_angle_sin_cos)
  finally have e: "polar_angle y x = t" .
  show "sqrt (x * x + y * y) * cos (polar_angle y x) = x" unfolding e r_def[symmetric] using x by simp
  show "sqrt (x * x + y * y) * sin (polar_angle y x) = y" unfolding e r_def[symmetric] using y by simp
qed

lemma principal_angle: "\<exists>k::int. - pi < t + 2 * pi * of_int k \<and> t + 2 * pi * of_int k \<le> pi"
proof -
  define m where "m = \<lceil>(t - pi) / (2 * pi)\<rceil>"
  have p: "0 < 2 * pi" using pi_gt_zero by simp
  have "(t - pi) / (2 * pi) \<le> of_int m" unfolding m_def by (rule le_of_int_ceiling)
  then have up: "t - pi \<le> of_int m * (2 * pi)" using p by (simp add: pos_divide_le_eq)
  have "of_int m - 1 < (t - pi) / (2 * pi)" unfolding m_def by linarith
  then have lo: "(of_int m - 1) * (2 * pi) < t - pi" using p by (simp add: pos_less_divide_eq)
  have "- pi < t + 2 * pi * of_int (- m) \<and> t + 2 * pi * of_int (- m) \<le> pi"
    using up lo by (simp add: algebra_simps)
  then show ?thesis by blast
qed

lemma sin_cos_shift:
  "sin (t + 2 * pi * of_int k) = sin t" "cos (t + 2 * pi * of_int k) = cos t"
  by (simp_all add: sin_add cos_add)

text \<open>
  The angle of a point near the unit circle: when \<open>(cv, sv)\<close> is within \<open>e\<close> of
  \<open>(cos t, sin t)\<close> in each coordinate and \<open>sv\<close> has the sign of \<open>sin t\<close>, its principal
  angle is within \<open>3e\<close> of \<open>t\<close>. The sign keeps the point on the side of the negative
  real axis where \<open>t\<close> is.
\<close>

lemma arctan_le_self: "0 \<le> x \<Longrightarrow> x \<le> 1 \<Longrightarrow> arctan x \<le> x" for x :: real
proof -
  assume a: "0 \<le> x" "x \<le> 1"
  show ?thesis
  proof (cases "x = 0")
    case True then show ?thesis by simp
  next
    case False
    then have "0 < x" using a by simp
    from arctan_series_bounds(2)[OF this a(2), of 0] show ?thesis by simp
  qed
qed

lemma abs_arctan_le: "\<bar>x\<bar> \<le> 1 \<Longrightarrow> \<bar>arctan x\<bar> \<le> \<bar>x\<bar>" for x :: real
proof (cases "0 \<le> x")
  case True
  assume "\<bar>x\<bar> \<le> 1"
  then show ?thesis using True arctan_le_self[of x] by simp
next
  case False
  assume "\<bar>x\<bar> \<le> 1"
  then have "arctan (- x) \<le> - x" using False by (intro arctan_le_self) simp_all
  then show ?thesis using False by (simp add: arctan_minus)
qed

lemma angle_perturbation:
  fixes t sv cv e :: real
  assumes t: "- pi < t" "t < pi"
    and sv: "\<bar>sv - sin t\<bar> \<le> e" and cv: "\<bar>cv - cos t\<bar> \<le> e"
    and sg: "0 < sv \<longleftrightarrow> 0 < sin t" "sv < 0 \<longleftrightarrow> sin t < 0"
    and e: "e \<le> 1 / 10"
  shows "\<bar>polar_angle sv cv - t\<bar> \<le> 3 * e"
proof -
  define ph where "ph = polar_angle sv cv"
  define N where "N = sv * cos t - cv * sin t"
  define D where "D = cv * cos t + sv * sin t"
  define rho where "rho = sqrt (cv * cv + sv * sv)"
  have e0: "0 \<le> e" using sv by linarith
  have one: "sin t * sin t + cos t * cos t = 1" using sin_cos_squared_add[of t] by (simp add: power2_eq_square)
  have Ne: "N = (sv - sin t) * cos t - (cv - cos t) * sin t" unfolding N_def by (simp add: algebra_simps)
  have "\<bar>(sv - sin t) * cos t\<bar> \<le> e * 1"
    unfolding abs_mult using e0 by (intro mult_mono sv) simp_all
  moreover have "\<bar>(cv - cos t) * sin t\<bar> \<le> e * 1"
    unfolding abs_mult using e0 by (intro mult_mono cv) simp_all
  ultimately have N: "\<bar>N\<bar> \<le> 2 * e" unfolding Ne by linarith
  have De: "D = 1 + ((cv - cos t) * cos t + (sv - sin t) * sin t)"
    unfolding D_def using one by (simp add: algebra_simps)
  have "\<bar>(cv - cos t) * cos t\<bar> \<le> e * 1"
    unfolding abs_mult using e0 by (intro mult_mono cv) simp_all
  moreover have "\<bar>(sv - sin t) * sin t\<bar> \<le> e * 1"
    unfolding abs_mult using e0 by (intro mult_mono sv) simp_all
  ultimately have D: "1 - 2 * e \<le> D" unfolding De by linarith
  then have Dpos: "4 / 5 \<le> D" using e by linarith
  have nz: "cv \<noteq> 0 \<or> sv \<noteq> 0"
  proof (rule ccontr)
    assume "\<not> ?thesis"
    then have "D = 0" unfolding D_def by simp
    then show False using Dpos by simp
  qed
  have pc: "rho * cos ph = cv" and ps: "rho * sin ph = sv"
    unfolding rho_def ph_def using nz by (rule polar_angle_polar)+
  have "0 < cv * cv + sv * sv" using nz
    by (metis add.commute mult_eq_0_iff not_sum_squares_lt_zero linorder_neqE_linordered_idom sum_squares_eq_zero_iff)
  then have rho: "0 < rho" unfolding rho_def by simp
  have rs: "rho * sin (ph - t) = N"
    unfolding sin_diff N_def pc[symmetric] ps[symmetric] by (simp add: algebra_simps)
  have rc: "rho * cos (ph - t) = D"
    unfolding cos_diff D_def pc[symmetric] ps[symmetric] by (simp add: algebra_simps)
  have "0 < rho * cos (ph - t)" unfolding rc using Dpos by simp
  then have cpos: "0 < cos (ph - t)" using rho by (rule zero_less_mult_pos)
  have phr: "- pi < ph" "ph \<le> pi" unfolding ph_def using polar_angle_range by simp_all
  have up: "ph - t < pi / 2"
  proof (rule ccontr)
    assume a: "\<not> ph - t < pi / 2"
    show False
    proof (cases "ph - t \<le> 3 * pi / 2")
      case True
      have "0 \<le> cos (ph - t - pi)" using a True by (intro cos_ge_zero) linarith+
      then show False using cpos by simp
    next
      case False
      then have "t < - (pi / 2)" using phr by linarith
      then have "0 < sin (- t)" using t by (intro sin_gt_zero) linarith+
      then have "sv < 0" using sg by simp
      moreover have "0 \<le> sin ph" using False t phr by (intro sin_ge_zero) linarith+
      then have "0 \<le> rho * sin ph" using rho by simp
      ultimately show False unfolding ps by simp
    qed
  qed
  have lo: "- (pi / 2) < ph - t"
  proof (rule ccontr)
    assume a: "\<not> - (pi / 2) < ph - t"
    show False
    proof (cases "- (3 * pi / 2) \<le> ph - t")
      case True
      have "0 \<le> cos (ph - t + pi)" using a True by (intro cos_ge_zero) linarith+
      then show False using cpos by simp
    next
      case False
      then have "pi / 2 < t" using phr by linarith
      then have "0 < sin t" using t by (intro sin_gt_zero) linarith+
      then have "0 < sv" using sg by simp
      moreover have "0 \<le> sin (- ph)" using False t phr by (intro sin_ge_zero) linarith+
      then have "rho * sin ph \<le> 0" using rho by (simp add: mult_le_0_iff)
      ultimately show False unfolding ps by simp
    qed
  qed
  have "tan (ph - t) = (rho * sin (ph - t)) / (rho * cos (ph - t))"
    using rho by (simp add: tan_def)
  then have tn: "tan (ph - t) = N / D" unfolding rs rc .
  have "\<bar>N\<bar> / \<bar>D\<bar> \<le> 2 * e / (4 / 5)"
    using N Dpos e0 by (intro frac_le) simp_all
  then have "\<bar>N / D\<bar> \<le> 2 * e / (4 / 5)" unfolding abs_divide .
  also have "2 * e / (4 / 5) = 5 / 2 * e" by simp
  finally have "\<bar>N / D\<bar> \<le> 5 / 2 * e" .
  then have q: "\<bar>N / D\<bar> \<le> 3 * e" using e0 by linarith
  then have q1: "\<bar>N / D\<bar> \<le> 1" using e by linarith
  have "ph - t = arctan (tan (ph - t))" using lo up by (simp add: arctan_tan)
  then have "\<bar>ph - t\<bar> = \<bar>arctan (N / D)\<bar>" unfolding tn by simp
  also have "\<dots> \<le> \<bar>N / D\<bar>" using q1 by (rule abs_arctan_le)
  finally show ?thesis using q unfolding ph_def by linarith
qed

subsection \<open>Binary64 numbers near \<open>\<pi>\<close>\<close>

text \<open>
  A binary64 number between \<open>2\<close> and \<open>4\<close> is a multiple of \<open>2^-51\<close>, so none equals
  \<open>\<pi>\<close>: a binary64 number that is at most \<open>\<pi>\<close> is below \<open>\<pi>\<close>. The sum
  \<open>0 + 2 * Math.PI\<close> is computed without rounding error and is below \<open>2\<pi>\<close>.
\<close>

lemma f64_grid:
  assumes "round_f64 t = Finite t" "2 \<le> t" "t < 4"
  shows "\<exists>n::int. t * 2 ^ 51 = of_int n"
proof -
  have i: "ilog2 t = 1" using assms(2,3) by (intro ilog2_unique) simp_all
  have t0: "t \<noteq> 0" "0 < t" "\<bar>t\<bar> = t" using assms(2) by simp_all
  define n where "n = round_half_even (t / 2 powi (- 51))"
  have k: "max (ilog2 t - 52) (- 1074) = - 51" unfolding i by simp
  have "round_f64 t = (if (2::rat) powi 1024 \<le> of_int n * 2 powi (- 51) then PosInf
                       else Finite (of_int n * 2 powi (- 51)))"
    unfolding round_f64_def Let_def n_def t0(3) k using t0(1,2) by (simp only: if_False if_True)
  then have "t = of_int n * 2 powi (- 51)" unfolding assms(1) by (simp split: if_splits)
  then have "t * 2 ^ 51 = of_int n" by (simp add: power_int_minus)
  then show ?thesis by blast
qed

lemma f64_below_pi:
  assumes f: "round_f64 t = Finite t" and le: "real_of_rat t \<le> pi"
  shows "real_of_rat t < pi"
proof (rule ccontr)
  assume "\<not> real_of_rat t < pi"
  then have e: "real_of_rat t = pi" using le by simp
  have "real_of_rat Math_PI < real_of_rat t" unfolding e by (rule Math_PI_less_pi)
  then have lo: "Math_PI < t" by (simp add: of_rat_less)
  have "real_of_rat t < real_of_rat (Math_PI + 1 / 4000000000000000)"
    unfolding e using pi_less_next by (simp add: of_rat_add of_rat_divide)
  then have hi: "t < Math_PI + 1 / 4000000000000000" by (simp add: of_rat_less)
  have "2 \<le> t" "t < 4" using lo hi unfolding Math_PI_def by simp_all
  with f obtain n :: int where n: "t * 2 ^ 51 = of_int n" using f64_grid by blast
  have "Math_PI * 2 ^ 51 < t * 2 ^ 51" using lo by simp
  then have 1: "(7074237752028440::rat) < of_int n" unfolding n Math_PI_def by simp
  have "t * 2 ^ 51 < (Math_PI + 1 / 4000000000000000) * 2 ^ 51" using hi by simp
  then have 2: "of_int n < (7074237752028441::rat)" unfolding n Math_PI_def by simp
  have "(7074237752028440::int) < n" using 1 by (metis of_int_less_iff of_int_numeral)
  moreover have "n < (7074237752028441::int)" using 2 by (metis of_int_less_iff of_int_numeral)
  ultimately show False by simp
qed

lemma f64_Math_PI: "round_f64 Math_PI = Finite Math_PI"
  unfolding Math_PI_def
  by (rule round_f64_posI[where m = "7074237752028440" and k = "- 51"]) simp_all

lemma sin_two_Math_PI: "sin (real_of_rat (2 * Math_PI)) < 0"
proof -
  have e: "real_of_rat (2 * Math_PI) = 2 * real_of_rat Math_PI" by (simp add: of_rat_mult)
  have "pi < 2 * real_of_rat Math_PI" using pi_less_next pi_ge_two by linarith
  moreover have "2 * real_of_rat Math_PI < 2 * pi" using Math_PI_less_pi by simp
  ultimately show ?thesis unfolding e by (rule sin_lt_zero)
qed

lemma two_Math_PI: "fadd (Finite 0) (fmul (Finite 2) (Finite Math_PI)) = Finite (2 * Math_PI)"
proof -
  have 1: "fmul (Finite 2) (Finite Math_PI) = Finite (2 * Math_PI)"
    unfolding fmul.simps Math_PI_def
    by (rule round_f64_posI[where m = "7074237752028440" and k = "- 50"]) simp_all
  have 2: "fadd (Finite 0) (Finite (2 * Math_PI)) = Finite (2 * Math_PI)"
    unfolding fadd.simps Math_PI_def
    by (rule round_f64_posI[where m = "7074237752028440" and k = "- 50"]) simp_all
  show ?thesis unfolding 1 2 ..
qed

subsection \<open>The requirements on the library\<close>

lemma cos_conformsD:
  assumes "cos_conforms tol M" "fin x = Some t"
  obtains cv where "fin (Math_cos M x) = Some cv" "\<bar>real_of_rat cv - cos (real_of_rat t)\<bar> \<le> tol"
proof -
  from assms(1) have "fin x = Some t \<longrightarrow>
        (\<exists>cv. fin (Math_cos M x) = Some cv \<and> \<bar>real_of_rat cv - cos (real_of_rat t)\<bar> \<le> tol)"
    unfolding cos_conforms_def by (elim allE)
  with assms(2) that show thesis by blast
qed

lemma sin_conformsD:
  assumes "sin_conforms tol M" "fin x = Some t"
  obtains sv where "fin (Math_sin M x) = Some sv" "\<bar>real_of_rat sv - sin (real_of_rat t)\<bar> \<le> tol"
      "0 < sv \<longleftrightarrow> 0 < sin (real_of_rat t)" "sv < 0 \<longleftrightarrow> sin (real_of_rat t) < 0"
proof -
  from assms(1) have "fin x = Some t \<longrightarrow>
        (\<exists>sv. fin (Math_sin M x) = Some sv \<and> \<bar>real_of_rat sv - sin (real_of_rat t)\<bar> \<le> tol
           \<and> (0 < sv \<longleftrightarrow> 0 < sin (real_of_rat t)) \<and> (sv < 0 \<longleftrightarrow> sin (real_of_rat t) < 0))"
    unfolding sin_conforms_def by (elim allE)
  with assms(2) that show thesis by blast
qed

lemma atan2_conformsD:
  assumes "atan2_conforms tol M" "fin y = Some p" "fin x = Some q"
  obtains a where "fin (Math_atan2 M y x) = Some a" "- Math_PI \<le> a" "a \<le> Math_PI"
      "p \<noteq> 0 \<or> 0 < q \<longrightarrow> \<bar>real_of_rat a - polar_angle (real_of_rat p) (real_of_rat q)\<bar> \<le> tol"
      "p = 0 \<and> q < 0 \<longrightarrow> \<bar>\<bar>real_of_rat a\<bar> - pi\<bar> \<le> tol"
proof -
  from assms(1) have "fin y = Some p \<longrightarrow> fin x = Some q \<longrightarrow>
        (\<exists>a. fin (Math_atan2 M y x) = Some a \<and> - Math_PI \<le> a \<and> a \<le> Math_PI
           \<and> (p \<noteq> 0 \<or> 0 < q \<longrightarrow> \<bar>real_of_rat a - polar_angle (real_of_rat p) (real_of_rat q)\<bar> \<le> tol)
           \<and> (p = 0 \<and> q < 0 \<longrightarrow> \<bar>\<bar>real_of_rat a\<bar> - pi\<bar> \<le> tol))"
    unfolding atan2_conforms_def by (elim allE)
  with assms(2,3) that show thesis by blast
qed

text \<open>The library \<open>ref_math\<close> meets the requirements with \<open>tol = 1e-15\<close>.\<close>

lemma near_pos:
  assumes "0 < x"
  shows "x < real_of_rat (near x)" "real_of_rat (near x) \<le> x + 1 / 2 ^ 60"
proof -
  define n where "n = \<lfloor>x * 2 ^ 60\<rfloor>"
  have n: "of_int n \<le> x * 2 ^ 60" "x * 2 ^ 60 < of_int n + 1" unfolding n_def by linarith+
  have e: "real_of_rat (near x) = (of_int n + 1) / 2 ^ 60"
    unfolding near_def n_def using assms by (simp add: of_rat_divide of_rat_add of_rat_power)
  have "x * 2 ^ 60 / 2 ^ 60 < (of_int n + 1) / 2 ^ 60" using n(2) by (intro divide_strict_right_mono) simp_all
  then show "x < real_of_rat (near x)" unfolding e by simp
  have "(of_int n + 1) / 2 ^ 60 \<le> (x * 2 ^ 60 + 1) / (2 ^ 60 :: real)" using n(1) by (intro divide_right_mono) simp_all
  also have "\<dots> = x + 1 / 2 ^ 60" by (simp add: add_divide_distrib)
  finally show "real_of_rat (near x) \<le> x + 1 / 2 ^ 60" unfolding e .
qed

lemma near_neg_eq: "x < 0 \<Longrightarrow> near x = - near (- x)"
  by (simp add: near_def)

lemma near_bounds:
  "\<bar>real_of_rat (near x) - x\<bar> \<le> 1 / 2 ^ 60"
  "0 < near x \<longleftrightarrow> 0 < x" "near x < 0 \<longleftrightarrow> x < 0"
proof -
  consider "x = 0" | "0 < x" | "x < 0" by linarith
  then have "\<bar>real_of_rat (near x) - x\<bar> \<le> 1 / 2 ^ 60 \<and> (0 < near x \<longleftrightarrow> 0 < x)
       \<and> (near x < 0 \<longleftrightarrow> x < 0)"
  proof cases
    case 1
    then show ?thesis by (simp add: near_def)
  next
    case 2
    note b = near_pos[OF 2]
    have "0 < real_of_rat (near x)" using b(1) 2 by linarith
    then have "0 < near x" by (simp only: zero_less_of_rat_iff)
    moreover have "\<bar>real_of_rat (near x) - x\<bar> \<le> 1 / 2 ^ 60" using b by linarith
    ultimately show ?thesis using 2 by auto
  next
    case 3
    then have p: "0 < - x" by simp
    note b = near_pos[OF p]
    have e: "real_of_rat (near x) = - real_of_rat (near (- x))"
      unfolding near_neg_eq[OF 3] by (simp add: of_rat_minus)
    have "real_of_rat (near x) < 0" unfolding e using b(1) p by linarith
    then have "near x < 0" by (simp only: of_rat_less_0_iff)
    moreover have "\<bar>real_of_rat (near x) - x\<bar> \<le> 1 / 2 ^ 60" unfolding e using b by linarith
    ultimately show ?thesis using 3 by auto
  qed
  then show "\<bar>real_of_rat (near x) - x\<bar> \<le> 1 / 2 ^ 60"
    "0 < near x \<longleftrightarrow> 0 < x" "near x < 0 \<longleftrightarrow> x < 0" by blast+
qed

lemma small_grid: "(1::real) / 2 ^ 60 \<le> 1 / 10 ^ 15"
  by simp

lemma ref_cos_conforms: "cos_conforms (1 / 10 ^ 15) ref_math"
  unfolding cos_conforms_def
proof (intro allI impI)
  fix x t assume x: "fin x = Some t"
  have "\<bar>real_of_rat (near (cos (real_of_rat t))) - cos (real_of_rat t)\<bar> \<le> 1 / 10 ^ 15"
    using near_bounds(1)[of "cos (real_of_rat t)"] small_grid by linarith
  then show "\<exists>cv. fin (Math_cos ref_math x) = Some cv \<and> \<bar>real_of_rat cv - cos (real_of_rat t)\<bar> \<le> 1 / 10 ^ 15"
    by (simp add: ref_math_def x)
qed

lemma ref_sin_conforms: "sin_conforms (1 / 10 ^ 15) ref_math"
  unfolding sin_conforms_def
proof (intro allI impI)
  fix x t assume x: "fin x = Some t"
  have "\<bar>real_of_rat (near (sin (real_of_rat t))) - sin (real_of_rat t)\<bar> \<le> 1 / 10 ^ 15"
    using near_bounds(1)[of "sin (real_of_rat t)"] small_grid by linarith
  then show "\<exists>sv. fin (Math_sin ref_math x) = Some sv \<and> \<bar>real_of_rat sv - sin (real_of_rat t)\<bar> \<le> 1 / 10 ^ 15
       \<and> (0 < sv \<longleftrightarrow> 0 < sin (real_of_rat t)) \<and> (sv < 0 \<longleftrightarrow> sin (real_of_rat t) < 0)"
    using near_bounds(2,3)[of "sin (real_of_rat t)"] by (simp add: ref_math_def x)
qed

lemma clamp_close:
  fixes th :: real
  assumes th: "- pi < th" "th \<le> pi"
  shows "\<bar>real_of_rat (max (- Math_PI) (min Math_PI (near th))) - th\<bar> \<le> 1 / 10 ^ 15"
proof -
  have n: "\<bar>real_of_rat (near th) - th\<bar> \<le> 1 / 2 ^ 60" by (rule near_bounds)
  have g: "(1::real) / 2 ^ 60 \<le> 1 / 4000000000000000" by simp
  have q: "(1::real) / 4000000000000000 \<le> 1 / 10 ^ 15" by simp
  note P = Math_PI_less_pi pi_less_next
  consider "Math_PI < near th" | "near th < - Math_PI" | "- Math_PI \<le> near th" "near th \<le> Math_PI"
    by linarith
  then show ?thesis
  proof cases
    case 1
    then have l: "real_of_rat Math_PI < real_of_rat (near th)" by (simp add: of_rat_less)
    have m: "max (- Math_PI) (min Math_PI (near th)) = Math_PI"
      using 1 unfolding Math_PI_def by simp
    show ?thesis unfolding m using l n g q P th by linarith
  next
    case 2
    then have "real_of_rat (near th) < real_of_rat (- Math_PI)" by (simp only: of_rat_less)
    then have l: "real_of_rat (near th) < - real_of_rat Math_PI" by (simp only: of_rat_minus)
    have m: "max (- Math_PI) (min Math_PI (near th)) = - Math_PI"
      using 2 unfolding Math_PI_def by simp
    show ?thesis unfolding m of_rat_minus using l n g q P th by linarith
  next
    case 3
    then have m: "max (- Math_PI) (min Math_PI (near th)) = near th" by simp
    show ?thesis unfolding m using n g q by linarith
  qed
qed

lemma clamp_range:
  "- Math_PI \<le> max (- Math_PI) (min Math_PI z)" "max (- Math_PI) (min Math_PI z) \<le> Math_PI"
  by (simp_all add: Math_PI_def)

lemma Math_PI_close: "\<bar>\<bar>real_of_rat Math_PI\<bar> - pi\<bar> \<le> 1 / 10 ^ 15" "\<bar>\<bar>real_of_rat (- Math_PI)\<bar> - pi\<bar> \<le> 1 / 10 ^ 15"
proof -
  have q: "(1::real) / 4000000000000000 \<le> 1 / 10 ^ 15" by simp
  have p: "0 < real_of_rat Math_PI" using Math_PI_pos by simp
  show "\<bar>\<bar>real_of_rat Math_PI\<bar> - pi\<bar> \<le> 1 / 10 ^ 15"
    using Math_PI_less_pi pi_less_next q p by linarith
  then show "\<bar>\<bar>real_of_rat (- Math_PI)\<bar> - pi\<bar> \<le> 1 / 10 ^ 15" by (simp add: of_rat_minus)
qed

lemma ref_atan2_conforms: "atan2_conforms (1 / 10 ^ 15) ref_math"
  unfolding atan2_conforms_def
proof (intro allI impI)
  fix y x p q assume y: "fin y = Some p" and x: "fin x = Some q"
  show "\<exists>a. fin (Math_atan2 ref_math y x) = Some a \<and> - Math_PI \<le> a \<and> a \<le> Math_PI
           \<and> (p \<noteq> 0 \<or> 0 < q \<longrightarrow> \<bar>real_of_rat a - polar_angle (real_of_rat p) (real_of_rat q)\<bar> \<le> 1 / 10 ^ 15)
           \<and> (p = 0 \<and> q < 0 \<longrightarrow> \<bar>\<bar>real_of_rat a\<bar> - pi\<bar> \<le> 1 / 10 ^ 15)"
  proof (cases "p = 0 \<and> q < 0")
    case True
    have "Math_atan2 ref_math y x =
        (if p = 0 \<and> q < 0 then Num (Finite (if y = NegZero then - Math_PI else Math_PI))
         else Num (Finite (max (- Math_PI) (min Math_PI (near (polar_angle (real_of_rat p) (real_of_rat q)))))))"
      by (simp add: ref_math_def x y)
    then have e: "Math_atan2 ref_math y x = Num (Finite (if y = NegZero then - Math_PI else Math_PI))"
      unfolding if_P[OF True] .
    show ?thesis
    proof (cases "y = NegZero")
      case yn: True
      show ?thesis unfolding e using True yn Math_PI_close(2) Math_PI_pos by simp
    next
      case yp: False
      show ?thesis unfolding e using True yp Math_PI_close(1) Math_PI_pos by simp
    qed
  next
    case False
    have "Math_atan2 ref_math y x =
        (if p = 0 \<and> q < 0 then Num (Finite (if y = NegZero then - Math_PI else Math_PI))
         else Num (Finite (max (- Math_PI) (min Math_PI (near (polar_angle (real_of_rat p) (real_of_rat q)))))))"
      by (simp add: ref_math_def x y)
    then have e: "Math_atan2 ref_math y x =
        Num (Finite (max (- Math_PI) (min Math_PI (near (polar_angle (real_of_rat p) (real_of_rat q))))))"
      unfolding if_not_P[OF False] .
    have r: "- pi < polar_angle (real_of_rat p) (real_of_rat q)" "polar_angle (real_of_rat p) (real_of_rat q) \<le> pi"
      using polar_angle_range by simp_all
    show ?thesis unfolding e fin.simps
      using False clamp_close[OF r] clamp_range[of "near (polar_angle (real_of_rat p) (real_of_rat q))"]
      by blast
  qed
qed

subsection \<open>\<open>getAngle\<close>\<close>



text \<open>
  The matrix \<open>[[-1, 0], [-0, -1]]\<close> has a negative zero in the entry \<open>[1][0]\<close>. On it the
  library \<open>ref_math\<close> returns \<open>-Math.PI\<close>, as ECMAScript prescribes for
  \<open>Math.atan2 (-0, -1)\<close>, and \<open>-Math.PI\<close> is above \<open>-\<pi>\<close>.
\<close>

lemma getAngle_negative_zero:
  "getAngle ref_math ((Num (Finite (- 1)), Num (Finite 0)), (NegZero, Num (Finite (- 1))))
     = Num (Finite (- Math_PI))
   \<and> - pi < real_of_rat (- Math_PI) \<and> real_of_rat (- Math_PI) \<le> pi"
proof -
  have "- Math_PI \<le> - Math_PI" "- Math_PI \<le> Math_PI" using Math_PI_pos by simp_all
  then have "- pi < real_of_rat (- Math_PI)" "real_of_rat (- Math_PI) \<le> pi"
    by (rule in_principal_range)+
  moreover have "getAngle ref_math ((Num (Finite (- 1)), Num (Finite 0)), (NegZero, Num (Finite (- 1))))
     = Num (Finite (- Math_PI))"
    by (simp add: getAngle_def ref_math_def)
  ultimately show ?thesis by blast
qed

subsection \<open>The round trip through \<open>fromAngle\<close>\<close>

lemma getAngle_fromAngle: "getAngle M (fromAngle M x) = Math_atan2 M (Math_sin M x) (Math_cos M x)"
  by (simp add: getAngle_def fromAngle_def Let_def)

text \<open>
  The round trip for an angle \<open>t\<close> whose sine and cosine are those of a number \<open>r\<close>
  strictly between \<open>-\<pi>\<close> and \<open>\<pi>\<close>: the result is within \<open>4 tol\<close> of \<open>r\<close>.
\<close>

lemma roundtrip_core:
  assumes C: "cos_conforms tol M" and S: "sin_conforms tol M" and A: "atan2_conforms tol M"
    and tol: "tol \<le> 1 / 10 ^ 10"
    and x: "fin x = Some t"
    and r: "- pi < r" "r < pi" and sr: "sin r = sin (real_of_rat t)" and cr: "cos r = cos (real_of_rat t)"
  shows "\<exists>a. fin (getAngle M (fromAngle M x)) = Some a \<and> - Math_PI \<le> a \<and> a \<le> Math_PI
            \<and> \<bar>real_of_rat a - r\<bar> \<le> 4 * tol"
proof -
  obtain cv where cv: "fin (Math_cos M x) = Some cv" "\<bar>real_of_rat cv - cos (real_of_rat t)\<bar> \<le> tol"
    using C x by (rule cos_conformsD)
  obtain sv where sv: "fin (Math_sin M x) = Some sv" "\<bar>real_of_rat sv - sin (real_of_rat t)\<bar> \<le> tol"
      "0 < sv \<longleftrightarrow> 0 < sin (real_of_rat t)" "sv < 0 \<longleftrightarrow> sin (real_of_rat t) < 0"
    using S x by (rule sin_conformsD)
  have tol0: "0 \<le> tol" using cv(2) by linarith
  obtain a where a: "fin (Math_atan2 M (Math_sin M x) (Math_cos M x)) = Some a"
      "- Math_PI \<le> a" "a \<le> Math_PI"
      "sv \<noteq> 0 \<or> 0 < cv \<longrightarrow> \<bar>real_of_rat a - polar_angle (real_of_rat sv) (real_of_rat cv)\<bar> \<le> tol"
    using A sv(1) cv(1) by (rule atan2_conformsD)
  have off: "sv \<noteq> 0 \<or> 0 < cv"
  proof (cases "sv = 0")
    case True
    then have "\<not> 0 < sin r" "\<not> sin r < 0" using sv(3,4) unfolding sr by simp_all
    then have "sin r = 0" by linarith
    then have "r = 0" by (rule sin_eq_0_pi[OF r])
    then have "cos (real_of_rat t) = 1" using cr by simp
    then have "\<bar>real_of_rat cv - 1\<bar> \<le> tol" using cv(2) by simp
    moreover have "tol \<le> 1 / 2" using tol by simp
    ultimately have "0 < real_of_rat cv" by linarith
    then show ?thesis by simp
  next
    case False
    then show ?thesis by simp
  qed
  then have 1: "\<bar>real_of_rat a - polar_angle (real_of_rat sv) (real_of_rat cv)\<bar> \<le> tol" using a(4) by blast
  have t10: "tol \<le> 1 / 10" using tol by simp
  have 2: "\<bar>polar_angle (real_of_rat sv) (real_of_rat cv) - r\<bar> \<le> 3 * tol"
  proof (rule angle_perturbation[OF r _ _ _ _ t10])
    show "\<bar>real_of_rat sv - sin r\<bar> \<le> tol" unfolding sr by (rule sv(2))
    show "\<bar>real_of_rat cv - cos r\<bar> \<le> tol" unfolding cr by (rule cv(2))
    show "(0 < real_of_rat sv) = (0 < sin r)" unfolding sr using sv(3) by simp
    show "(real_of_rat sv < 0) = (sin r < 0)" unfolding sr using sv(4) by simp
  qed
  have "\<bar>real_of_rat a - r\<bar> \<le> 4 * tol" using 1 2 by linarith
  then show ?thesis unfolding getAngle_fromAngle using a(1,2,3) by blast
qed

text \<open>
  C8. For every binary64 angle \<open>t\<close> in \<open>(-\<pi>, \<pi>]\<close>, \<open>getAngle (fromAngle t)\<close> is a
  finite number within \<open>1e-9\<close> of \<open>t\<close>, with every library that meets the requirements
  with an accuracy \<open>tol\<close> of \<open>1e-10\<close> or better: the error is at most \<open>4 tol\<close>.
\<close>

theorem angle_roundtrip:
  assumes "cos_conforms tol M" and "sin_conforms tol M" and "atan2_conforms tol M"
    and "tol \<le> 1 / 10 ^ 10"
    and "fin x = Some t" and "round_f64 t = Finite t"
    and "- pi < real_of_rat t" and "real_of_rat t \<le> pi"
  shows "\<exists>a. fin (getAngle M (fromAngle M x)) = Some a
            \<and> \<bar>real_of_rat a - real_of_rat t\<bar> \<le> 4 * tol
            \<and> \<bar>real_of_rat a - real_of_rat t\<bar> \<le> 1 / 10 ^ 9"
proof -
  have "real_of_rat t < pi" using assms(6,8) by (rule f64_below_pi)
  with assms obtain a where a: "fin (getAngle M (fromAngle M x)) = Some a"
      "\<bar>real_of_rat a - real_of_rat t\<bar> \<le> 4 * tol"
    using roundtrip_core[of tol M x t "real_of_rat t"] by blast
  have "4 * tol \<le> 1 / 10 ^ 9" using assms(4) by simp
  then have "\<bar>real_of_rat a - real_of_rat t\<bar> \<le> 1 / 10 ^ 9" using a(2) by linarith
  then show ?thesis using a by blast
qed

theorem angle_roundtrip_witness:
  "cos_conforms (1 / 10 ^ 15) ref_math \<and> sin_conforms (1 / 10 ^ 15) ref_math
   \<and> atan2_conforms (1 / 10 ^ 15) ref_math \<and> (1::real) / 10 ^ 15 \<le> 1 / 10 ^ 10
   \<and> fin (Num (Finite Math_PI)) = Some Math_PI \<and> round_f64 Math_PI = Finite Math_PI
   \<and> - pi < real_of_rat Math_PI \<and> real_of_rat Math_PI \<le> pi
   \<and> (\<exists>a. fin (getAngle ref_math (fromAngle ref_math (Num (Finite Math_PI)))) = Some a
         \<and> \<bar>real_of_rat a - real_of_rat Math_PI\<bar> \<le> 4 * (1 / 10 ^ 15)
         \<and> \<bar>real_of_rat a - real_of_rat Math_PI\<bar> \<le> 1 / 10 ^ 9)"
proof -
  have t: "(1::real) / 10 ^ 15 \<le> 1 / 10 ^ 10" by simp
  have f: "fin (Num (Finite Math_PI)) = Some Math_PI" by simp
  have "0 < real_of_rat Math_PI" using Math_PI_pos by (simp only: zero_less_of_rat_iff)
  then have lo: "- pi < real_of_rat Math_PI" using pi_gt_zero by linarith
  have hi: "real_of_rat Math_PI \<le> pi" using Math_PI_less_pi by simp
  from angle_roundtrip[OF ref_cos_conforms ref_sin_conforms ref_atan2_conforms t f f64_Math_PI lo hi]
  show ?thesis using ref_cos_conforms ref_sin_conforms ref_atan2_conforms t f f64_Math_PI lo hi by blast
qed

text \<open>
  C10, the claim as stated. \<open>fromAngle (t + 2\<pi>) = fromAngle t\<close> should hold for every
  angle. For \<open>t = 0\<close> the argument \<open>0 + 2 * Math.PI\<close> is the binary64 number
  \<open>2 * Math.PI\<close>, which is between \<open>\<pi>\<close> and \<open>2\<pi>\<close>, so its sine is negative, and the
  sine of \<open>0\<close> is \<open>0\<close>: with no library whose \<open>Math.sin\<close> returns numbers of the sign
  of the sine are the two matrices equal.
\<close>

theorem fromAngle_not_periodic:
  "\<not> (\<exists>M tol. sin_conforms tol M
        \<and> fromAngle M (Num (fadd (Finite 0) (fmul (Finite 2) (Finite Math_PI)))) = fromAngle M (Num (Finite 0)))"
proof
  assume "\<exists>M tol. sin_conforms tol M
        \<and> fromAngle M (Num (fadd (Finite 0) (fmul (Finite 2) (Finite Math_PI)))) = fromAngle M (Num (Finite 0))"
  then obtain M tol where S: "sin_conforms tol M"
    and e: "fromAngle M (Num (Finite (2 * Math_PI))) = fromAngle M (Num (Finite 0))"
    unfolding two_Math_PI by blast
  have eq: "Math_sin M (Num (Finite (2 * Math_PI))) = Math_sin M (Num (Finite 0))"
    using e by (simp add: fromAngle_def Let_def)
  obtain s0 where s0: "fin (Math_sin M (Num (Finite 0))) = Some s0"
      "s0 < 0 \<longleftrightarrow> sin (real_of_rat 0) < 0"
    using sin_conformsD[OF S, of "Num (Finite 0)" 0] by (metis fin.simps(2))
  obtain s1 where s1: "fin (Math_sin M (Num (Finite (2 * Math_PI)))) = Some s1"
      "s1 < 0 \<longleftrightarrow> sin (real_of_rat (2 * Math_PI)) < 0"
    using sin_conformsD[OF S, of "Num (Finite (2 * Math_PI))" "2 * Math_PI"] by (metis fin.simps(2))
  have "s1 = s0" using s0(1) s1(1) unfolding eq by simp
  moreover have "s1 < 0" using s1(2) sin_two_Math_PI by simp
  moreover have "\<not> s0 < 0" using s0(2) by simp
  ultimately show False by simp
qed

text \<open>
  C10. For every finite binary64 angle \<open>t\<close>, with every library that meets the
  requirements with an accuracy \<open>tol\<close> of \<open>1e-10\<close> or better:
  \<open>getAngle (fromAngle t)\<close> is a finite number in \<open>(-\<pi>, \<pi>]\<close> within \<open>1e-9\<close> of
  \<open>t + 2\<pi>k\<close> for an integer \<open>k\<close>; and \<open>fromAngle t\<close> is \<open>[[c, -s], [s, c]]\<close> with
  \<open>c\<close> and \<open>s\<close> within \<open>tol\<close> of the cosine and the sine of \<open>t + 2\<pi>j\<close> for every
  integer \<open>j\<close>.
\<close>

theorem angle_normalised:
  assumes C: "cos_conforms tol M" and S: "sin_conforms tol M" and A: "atan2_conforms tol M"
    and tol: "tol \<le> 1 / 10 ^ 10"
    and x: "fin x = Some t"
  shows "(\<exists>a. fin (getAngle M (fromAngle M x)) = Some a
            \<and> - pi < real_of_rat a \<and> real_of_rat a \<le> pi
            \<and> (\<exists>k::int. \<bar>real_of_rat a - (real_of_rat t + 2 * pi * of_int k)\<bar> \<le> 1 / 10 ^ 9))
     \<and> (\<exists>cv sv. fromAngle M x = ((Math_cos M x, neg (Math_sin M x)), (Math_sin M x, Math_cos M x))
            \<and> fin (Math_cos M x) = Some cv \<and> fin (Math_sin M x) = Some sv
            \<and> (\<forall>j::int. \<bar>real_of_rat cv - cos (real_of_rat t + 2 * pi * of_int j)\<bar> \<le> tol
                        \<and> \<bar>real_of_rat sv - sin (real_of_rat t + 2 * pi * of_int j)\<bar> \<le> tol))"
proof -
  obtain cv where cv: "fin (Math_cos M x) = Some cv" "\<bar>real_of_rat cv - cos (real_of_rat t)\<bar> \<le> tol"
    using C x by (rule cos_conformsD)
  obtain sv where sv: "fin (Math_sin M x) = Some sv" "\<bar>real_of_rat sv - sin (real_of_rat t)\<bar> \<le> tol"
      "0 < sv \<longleftrightarrow> 0 < sin (real_of_rat t)" "sv < 0 \<longleftrightarrow> sin (real_of_rat t) < 0"
    using S x by (rule sin_conformsD)
  have second: "\<exists>cv sv. fromAngle M x = ((Math_cos M x, neg (Math_sin M x)), (Math_sin M x, Math_cos M x))
            \<and> fin (Math_cos M x) = Some cv \<and> fin (Math_sin M x) = Some sv
            \<and> (\<forall>j::int. \<bar>real_of_rat cv - cos (real_of_rat t + 2 * pi * of_int j)\<bar> \<le> tol
                        \<and> \<bar>real_of_rat sv - sin (real_of_rat t + 2 * pi * of_int j)\<bar> \<le> tol)"
    unfolding sin_cos_shift using cv sv(1,2) by (simp add: fromAngle_def Let_def)
  obtain k :: int where k: "- pi < real_of_rat t + 2 * pi * of_int k" "real_of_rat t + 2 * pi * of_int k \<le> pi"
    using principal_angle by blast
  define r where "r = real_of_rat t + 2 * pi * of_int k"
  have sr: "sin r = sin (real_of_rat t)" and cr: "cos r = cos (real_of_rat t)"
    unfolding r_def by (simp_all only: sin_cos_shift)
  have tol9: "4 * tol \<le> 1 / 10 ^ 9" using tol by simp
  have tol0: "0 \<le> tol" using cv(2) by linarith
  have first: "\<exists>a. fin (getAngle M (fromAngle M x)) = Some a
            \<and> - pi < real_of_rat a \<and> real_of_rat a \<le> pi
            \<and> (\<exists>k::int. \<bar>real_of_rat a - (real_of_rat t + 2 * pi * of_int k)\<bar> \<le> 1 / 10 ^ 9)"
  proof (cases "r < pi")
    case True
    obtain a where a: "fin (getAngle M (fromAngle M x)) = Some a" "- Math_PI \<le> a" "a \<le> Math_PI"
        "\<bar>real_of_rat a - r\<bar> \<le> 4 * tol"
      using roundtrip_core[OF C S A tol x _ True sr cr] k(1) unfolding r_def by blast
    have "\<bar>real_of_rat a - (real_of_rat t + 2 * pi * of_int k)\<bar> \<le> 1 / 10 ^ 9"
      using a(4) tol9 unfolding r_def by linarith
    then show ?thesis using a(1) in_principal_range[OF a(2,3)] by blast
  next
    case False
    then have rp: "r = pi" using k(2) unfolding r_def by simp
    have s0: "sin (real_of_rat t) = 0" and c1: "cos (real_of_rat t) = - 1"
      using sr cr unfolding rp by simp_all
    have sv0: "sv = 0" using sv(3,4) unfolding s0 by simp
    have "\<bar>real_of_rat cv + 1\<bar> \<le> tol" using cv(2) unfolding c1 by simp
    moreover have "tol \<le> 1 / 2" using tol by simp
    ultimately have "real_of_rat cv < 0" by linarith
    then have cneg: "cv < 0" by simp
    obtain a where a: "fin (Math_atan2 M (Math_sin M x) (Math_cos M x)) = Some a"
        "- Math_PI \<le> a" "a \<le> Math_PI"
        "sv = 0 \<and> cv < 0 \<longrightarrow> \<bar>\<bar>real_of_rat a\<bar> - pi\<bar> \<le> tol"
      using atan2_conformsD[OF A sv(1) cv(1)] by metis
    have cut: "\<bar>\<bar>real_of_rat a\<bar> - pi\<bar> \<le> tol" using a(4) sv0 cneg by simp
    have t9: "tol \<le> 1 / 10 ^ 9" using tol9 tol0 by linarith
    have "\<exists>j::int. \<bar>real_of_rat a - (real_of_rat t + 2 * pi * of_int j)\<bar> \<le> 1 / 10 ^ 9"
    proof (cases "0 \<le> real_of_rat a")
      case True
      then have "\<bar>real_of_rat a - r\<bar> \<le> tol" using cut unfolding rp by linarith
      then have "\<bar>real_of_rat a - (real_of_rat t + 2 * pi * of_int k)\<bar> \<le> 1 / 10 ^ 9"
        using t9 unfolding r_def by linarith
      then show ?thesis by blast
    next
      case False
      then have "\<bar>real_of_rat a - (r - 2 * pi)\<bar> \<le> tol" using cut unfolding rp by linarith
      moreover have "r - 2 * pi = real_of_rat t + 2 * pi * of_int (k - 1)"
        unfolding r_def by (simp add: algebra_simps)
      ultimately have "\<bar>real_of_rat a - (real_of_rat t + 2 * pi * of_int (k - 1))\<bar> \<le> 1 / 10 ^ 9"
        using t9 by linarith
      then show ?thesis by blast
    qed
    then show ?thesis unfolding getAngle_fromAngle using a(1) in_principal_range[OF a(2,3)] by blast
  qed
  show ?thesis using first second by blast
qed

theorem angle_normalised_witness:
  "cos_conforms (1 / 10 ^ 15) ref_math \<and> sin_conforms (1 / 10 ^ 15) ref_math
   \<and> atan2_conforms (1 / 10 ^ 15) ref_math \<and> (1::real) / 10 ^ 15 \<le> 1 / 10 ^ 10
   \<and> fin (Num (Finite 7)) = Some 7
   \<and> (\<exists>a. fin (getAngle ref_math (fromAngle ref_math (Num (Finite 7)))) = Some a
         \<and> - pi < real_of_rat a \<and> real_of_rat a \<le> pi
         \<and> (\<exists>k::int. \<bar>real_of_rat a - (real_of_rat 7 + 2 * pi * of_int k)\<bar> \<le> 1 / 10 ^ 9))"
proof -
  have t: "(1::real) / 10 ^ 15 \<le> 1 / 10 ^ 10" by simp
  have f: "fin (Num (Finite 7)) = Some 7" by simp
  from angle_normalised[OF ref_cos_conforms ref_sin_conforms ref_atan2_conforms t f]
  show ?thesis using ref_cos_conforms ref_sin_conforms ref_atan2_conforms t f by blast
qed

end
